theory Spec2Isabelle
  imports Main "HOL-Library.Sublist" "HOL-Library.Char_ord" "HOL-Library.List_Lexorder"
    "HOL-Library.AList"
begin

section \<open>JavaScript values used by the tracker\<close>

text \<open>
  Strings are lists of code units, each below 256 (the Latin-1 range of UTF-16). A field
  of a JSON object that may be absent, \<open>null\<close> or \<open>undefined\<close> is a \<open>string option\<close>;
  JavaScript's truthiness of such a value is \<open>truthy\<close>: absent values and the empty
  string are falsy. \<open>jsor a b\<close> is \<open>a || b\<close>.
\<close>

definition truthy :: "string option \<Rightarrow> bool" where
  "truthy v = (case v of None \<Rightarrow> False | Some s \<Rightarrow> s \<noteq> [])"

definition jsor :: "string option \<Rightarrow> string option \<Rightarrow> string option" where
  "jsor a b = (if truthy a then a else b)"

text \<open>
  \<open>String.prototype.toLowerCase\<close> on these code units: the letters A to Z, and the
  letters from U+00C0 to U+00DE other than the multiplication sign U+00D7, which move up
  by 32; every other code unit below 256 is its own lower case.
\<close>

definition toLowerChar :: "char \<Rightarrow> char" where
  "toLowerChar c =
     (case map_of (zip ''ABCDEFGHIJKLMNOPQRSTUVWXYZ'' ''abcdefghijklmnopqrstuvwxyz'') c of
        Some l \<Rightarrow> l
      | None \<Rightarrow>
          if CHR 0xC0 \<le> c \<and> c \<le> CHR 0xDE \<and> c \<noteq> CHR 0xD7
          then char_of (of_char c + (32 :: nat)) else c)"

definition toLowerCase :: "string \<Rightarrow> string" where
  "toLowerCase s = map toLowerChar s"

text \<open>\<open>hay.includes(needle)\<close>: the needle occurs at some position of the haystack.\<close>

fun str_includes :: "'a list \<Rightarrow> 'a list \<Rightarrow> bool" where
  "str_includes [] needle = (needle = [])"
| "str_includes (c # cs) needle = (prefix needle (c # cs) \<or> str_includes cs needle)"

section \<open>Keyword matcher\<close>

text \<open>
  An entry of \<open>MOVIE_KEYWORDS\<close> or \<open>CINEMA_KEYWORDS\<close> is any JSON value: \<open>KwArray\<close> is
  an array of keywords (each read through \<open>String(keyword)\<close>), \<open>KwOther\<close> a value for
  which \<open>Array.isArray\<close> is false. A configuration is \<open>None\<close> when it is unset or is not
  an array itself.
\<close>

datatype kwset = KwArray "string list" | KwOther

record setMatch =
  keywordSet :: kwset
  setIndex :: nat

record filmMatch = setMatch +
  matchingFilms :: "string list"

fun checkKeywordSet :: "kwset \<Rightarrow> string list \<Rightarrow> string list" where
  "checkKeywordSet KwOther filmNames = []"
| "checkKeywordSet (KwArray kws) filmNames =
     (if kws = [] then []
      else filter (\<lambda>filmName.
             list_all (\<lambda>keyword. str_includes (toLowerCase filmName) (toLowerCase keyword)) kws)
           filmNames)"

definition pushFilmMatch :: "string list \<Rightarrow> filmMatch list \<Rightarrow> nat \<times> kwset \<Rightarrow> filmMatch list" where
  "pushFilmMatch filmNames matches ik =
     (let matchingFilms = checkKeywordSet (snd ik) filmNames
      in if length matchingFilms > 0
         then matches @ [\<lparr>keywordSet = snd ik, setIndex = fst ik, matchingFilms = matchingFilms\<rparr>]
         else matches)"

definition checkKeywordSets :: "kwset list option \<Rightarrow> string list \<Rightarrow> filmMatch list" where
  "checkKeywordSets keywordSets filmNames =
     (case keywordSets of
        None \<Rightarrow> []
      | Some kss \<Rightarrow>
          if kss = [] then []
          else foldl (pushFilmMatch filmNames) [] (enumerate 0 kss))"

section \<open>Entity extractor\<close>

text \<open>
  The primary response as the code reads it: \<open>output.mv\<close> (\<open>None\<close> when it is missing or
  not an array), each movie with its own \<open>filmName\<close>, \<open>releaseDate\<close>, \<open>year\<close>, \<open>month\<close>,
  \<open>day\<close> and its \<open>films\<close> array (\<open>None\<close> when missing or not an array), each film with
  \<open>filmName\<close>, \<open>filmCommonCode\<close> and \<open>releaseDate\<close>. Scalar fields hold JSON strings.
\<close>

record film =
  filmName :: "string option"
  filmCommonCode :: "string option"
  filmReleaseDate :: "string option"

record movie =
  movieFilmName :: "string option"
  films :: "film list option"
  movieReleaseDate :: "string option"
  year :: "string option"
  month :: "string option"
  day :: "string option"

record responseData =
  output_mv :: "movie list option"

definition getMovies :: "responseData \<Rightarrow> movie list" where
  "getMovies responseData = (case output_mv responseData of Some ms \<Rightarrow> ms | None \<Rightarrow> [])"

text \<open>A JavaScript \<open>Set\<close> of strings in insertion order: \<open>add\<close> keeps the first occurrence.\<close>

definition setAdd :: "string list \<Rightarrow> string option \<Rightarrow> string list" where
  "setAdd s v =
     (case v of
        None \<Rightarrow> s
      | Some x \<Rightarrow> if x = [] then s else if x \<in> set s then s else s @ [x])"

definition addMovieNames :: "string list \<Rightarrow> movie \<Rightarrow> string list" where
  "addMovieNames filmNames movie =
     (let s1 = setAdd filmNames (movieFilmName movie)
      in case films movie of
           None \<Rightarrow> s1
         | Some fs \<Rightarrow> foldl (\<lambda>s film. setAdd s (filmName film)) s1 fs)"

definition getAllFilmNames :: "movie list \<Rightarrow> string list" where
  "getAllFilmNames movies = foldl addMovieNames [] movies"

section \<open>Film info resolver\<close>

definition padStart :: "nat \<Rightarrow> char \<Rightarrow> string \<Rightarrow> string" where
  "padStart n c s = replicate (n - length s) c @ s"

definition formatDateFromParts :: "string \<Rightarrow> string \<Rightarrow> string \<Rightarrow> string" where
  "formatDateFromParts y m d =
     y @ ''-'' @ padStart 2 CHR ''0'' m @ ''-'' @ padStart 2 CHR ''0'' d"

text \<open>\<open>movie.year && movie.month && movie.day ? formatDateFromParts(...) : null\<close>\<close>

definition dateFromParts :: "movie \<Rightarrow> string option" where
  "dateFromParts movie =
     (case (year movie, month movie, day movie) of
        (Some y, Some m, Some d) \<Rightarrow>
          if y \<noteq> [] \<and> m \<noteq> [] \<and> d \<noteq> [] then Some (formatDateFromParts y m d) else None
      | _ \<Rightarrow> None)"

text \<open>
  \<open>filmInfoMap\<close> is a JavaScript \<open>Map\<close>: an association list in insertion order, where
  \<open>set\<close> on a present key replaces the value in place (\<open>AList.update\<close>). \<open>recordCode\<close> is
  the guarded \<open>set\<close> both loops of \<open>extractFilmInfo\<close> perform.
\<close>

type_synonym filmInfoMap = "(string \<times> string option) list"

definition mapHas :: "filmInfoMap \<Rightarrow> string \<Rightarrow> bool" where
  "mapHas m k = (map_of m k \<noteq> None)"

definition mapGet :: "filmInfoMap \<Rightarrow> string \<Rightarrow> string option" where
  "mapGet m k = (case map_of m k of Some v \<Rightarrow> v | None \<Rightarrow> None)"

definition recordCode :: "filmInfoMap \<Rightarrow> string \<Rightarrow> string option \<Rightarrow> filmInfoMap" where
  "recordCode m c d =
     (if \<not> mapHas m c \<or> \<not> truthy (mapGet m c) then AList.update c d m else m)"

text \<open>First loop: the movie's own name matched, every film with a code is recorded.\<close>

definition recordByMovie :: "string option \<Rightarrow> filmInfoMap \<Rightarrow> film \<Rightarrow> filmInfoMap" where
  "recordByMovie rd m f =
     (case filmCommonCode f of
        None \<Rightarrow> m
      | Some c \<Rightarrow> if c = [] then m else recordCode m c (jsor (filmReleaseDate f) rd))"

text \<open>Second loop: a film whose own name matched and that has a code is recorded.\<close>

definition recordByFilm :: "string list \<Rightarrow> movie \<Rightarrow> filmInfoMap \<Rightarrow> film \<Rightarrow> filmInfoMap" where
  "recordByFilm matching movie m f =
     (case (filmName f, filmCommonCode f) of
        (Some n, Some c) \<Rightarrow>
          if n \<noteq> [] \<and> n \<in> set matching \<and> c \<noteq> []
          then recordCode m c
                 (jsor (jsor (filmReleaseDate f) (movieReleaseDate movie)) (dateFromParts movie))
          else m
      | _ \<Rightarrow> m)"

definition movieNameMatches :: "string list \<Rightarrow> movie \<Rightarrow> bool" where
  "movieNameMatches matching movie =
     list_ex (\<lambda>mf. truthy (movieFilmName movie) \<and> movieFilmName movie = Some mf) matching"

definition extractMovie :: "string list \<Rightarrow> filmInfoMap \<Rightarrow> movie \<Rightarrow> filmInfoMap" where
  "extractMovie matching m movie =
     (let m1 =
        (if movieNameMatches matching movie
         then (let rd = jsor (movieReleaseDate movie) (dateFromParts movie)
               in case films movie of
                    None \<Rightarrow> m
                  | Some fs \<Rightarrow> foldl (recordByMovie rd) m fs)
         else m)
      in case films movie of
           None \<Rightarrow> m1
         | Some fs \<Rightarrow> foldl (recordByFilm matching movie) m1 fs)"

record filmInfo =
  code :: string
  releaseDate :: "string option"

definition extractFilmInfo :: "movie list \<Rightarrow> string list \<Rightarrow> filmInfo list" where
  "extractFilmInfo movies matching =
     map (\<lambda>(c, d). \<lparr>code = c, releaseDate = d\<rparr>) (foldl (extractMovie matching) [] movies)"

subsection \<open>Matching occurrences of a film identifier\<close>

text \<open>
  The occurrences of film identifiers among the matching movies, in the order of the
  response, each with the date resolved for it: for a movie whose own name matched, every
  film with a code; then, for any movie, every film whose own name matched and that has a
  code. The date is the film's, else the movie's, else the one assembled from year, month
  and day, else \<open>null\<close>. \<open>firstKnownDate c\<close> is the first date among the occurrences of \<open>c\<close>
  that is not \<open>null\<close>, and \<open>null\<close> when there is none. \<open>recordAll\<close> records a list of
  occurrences in a map, and \<open>dateOk\<close> says a date is \<open>null\<close> or a non-empty string.
\<close>

definition byMovieOccurrence :: "movie \<Rightarrow> film \<Rightarrow> (string \<times> string option) list" where
  "byMovieOccurrence movie f =
     (case filmCommonCode f of
        None \<Rightarrow> []
      | Some c \<Rightarrow>
          if c = [] then []
          else [(c, jsor (filmReleaseDate f)
                      (jsor (movieReleaseDate movie) (dateFromParts movie)))])"

definition byFilmOccurrence :: "string list \<Rightarrow> movie \<Rightarrow> film \<Rightarrow> (string \<times> string option) list" where
  "byFilmOccurrence matching movie f =
     (case (filmName f, filmCommonCode f) of
        (Some n, Some c) \<Rightarrow>
          if n \<noteq> [] \<and> n \<in> set matching \<and> c \<noteq> []
          then [(c, jsor (jsor (filmReleaseDate f) (movieReleaseDate movie))
                      (dateFromParts movie))]
          else []
      | _ \<Rightarrow> [])"

definition movieOccurrences :: "string list \<Rightarrow> movie \<Rightarrow> (string \<times> string option) list" where
  "movieOccurrences matching movie =
     (case films movie of
        None \<Rightarrow> []
      | Some fs \<Rightarrow>
          (if movieNameMatches matching movie
           then concat (map (byMovieOccurrence movie) fs) else []) @
          concat (map (byFilmOccurrence matching movie) fs))"

definition occurrences :: "string list \<Rightarrow> movie list \<Rightarrow> (string \<times> string option) list" where
  "occurrences matching movies = concat (map (movieOccurrences matching) movies)"

definition firstKnownDate :: "string \<Rightarrow> (string \<times> string option) list \<Rightarrow> string option" where
  "firstKnownDate c occ =
     (case filter (\<lambda>p. fst p = c \<and> snd p \<noteq> None) occ of
        [] \<Rightarrow> None
      | p # ps \<Rightarrow> snd p)"

definition recordAll :: "filmInfoMap \<Rightarrow> (string \<times> string option) list \<Rightarrow> filmInfoMap" where
  "recordAll m occ = foldl (\<lambda>m p. recordCode m (fst p) (snd p)) m occ"

definition dateOk :: "string option \<Rightarrow> bool" where
  "dateOk d = (d = None \<or> truthy d)"

section \<open>Release-date normalizer\<close>

text \<open>
  The classes \<open>\d\<close>, \<open>\w\<close> and \<open>\s\<close>; below 256 the white space is the space, the
  controls from tab to carriage return, and the no-break space U+00A0.
\<close>

definition isDigit :: "char \<Rightarrow> bool" where
  "isDigit c = (CHR ''0'' \<le> c \<and> c \<le> CHR ''9'')"

definition isWord :: "char \<Rightarrow> bool" where
  "isWord c = (isDigit c \<or> (CHR ''a'' \<le> c \<and> c \<le> CHR ''z'') \<or>
               (CHR ''A'' \<le> c \<and> c \<le> CHR ''Z'') \<or> c = CHR ''_'')"

definition isSpace :: "char \<Rightarrow> bool" where
  "isSpace c = (c = CHR '' '' \<or> (9 \<le> (of_char c :: nat) \<and> (of_char c :: nat) \<le> 13) \<or>
                c = CHR 0xA0)"

text \<open>The test \<open>/^\d{4}-\d{2}-\d{2}$/\<close>: exactly ten characters, \<open>dddd-dd-dd\<close>.\<close>

definition isCanonical :: "string \<Rightarrow> bool" where
  "isCanonical s =
     (length s = 10 \<and> list_all isDigit (take 4 s) \<and> take 1 (drop 4 s) = ''-'' \<and>
      list_all isDigit (take 2 (drop 5 s)) \<and> take 1 (drop 7 s) = ''-'' \<and>
      list_all isDigit (drop 8 s))"

text \<open>Decimal representation of a number, as a template literal prints it.\<close>

definition digitChar :: "nat \<Rightarrow> char" where
  "digitChar n = ''0123456789'' ! n"

fun showNat :: "nat \<Rightarrow> string" where
  "showNat n = (if n < 10 then [digitChar n] else showNat (n div 10) @ [digitChar (n mod 10)])"

declare showNat.simps [simp del]

definition showInt :: "int \<Rightarrow> string" where
  "showInt i = (if i < 0 then CHR ''-'' # showNat (nat (- i)) else showNat (nat i))"

text \<open>
  What \<open>new Date(s)\<close> gives, read through \<open>getTime\<close>, \<open>getFullYear\<close>, \<open>getMonth\<close> and
  \<open>getDate\<close>: a valid date with its local full year, month index (from 0) and day of the
  month; an Invalid Date; or an exception. The parser is the runtime's, so it is a
  parameter. The ECMAScript constructor returns an Invalid Date for a string it cannot
  parse and does not throw; \<open>DateThrows\<close> is there for the \<open>catch\<close> block of the source.
\<close>

datatype dateResult = DateOk int nat nat | DateInvalid | DateThrows

definition formatDate :: "int \<Rightarrow> nat \<Rightarrow> nat \<Rightarrow> string" where
  "formatDate y m d =
     showInt y @ ''-'' @ padStart 2 CHR ''0'' (showNat (m + 1)) @ ''-'' @
     padStart 2 CHR ''0'' (showNat d)"

definition months :: "(string \<times> string) list" where
  "months =
     [(''Jan'', ''01''), (''Feb'', ''02''), (''Mar'', ''03''), (''Apr'', ''04''),
      (''May'', ''05''), (''Jun'', ''06''), (''Jul'', ''07''), (''Aug'', ''08''),
      (''Sep'', ''09''), (''Oct'', ''10''), (''Nov'', ''11''), (''Dec'', ''12'')]"

text \<open>
  \<open>/(\w+)\s+(\d+),\s+(\d+)/\<close> anchored at the head of the string. Each group is followed
  by a character outside its class, so the greedy match takes each maximal run.
\<close>

definition matchHere :: "string \<Rightarrow> (string \<times> string \<times> string) option" where
  "matchHere s =
     (let monthName = takeWhile isWord s; r1 = dropWhile isWord s;
          sp1 = takeWhile isSpace r1; r2 = dropWhile isSpace r1;
          dayStr = takeWhile isDigit r2; r3 = dropWhile isDigit r2
      in if monthName = [] \<or> sp1 = [] \<or> dayStr = [] then None
         else case r3 of
                [] \<Rightarrow> None
              | c # r4 \<Rightarrow>
                  (let sp2 = takeWhile isSpace r4; yearStr = takeWhile isDigit (dropWhile isSpace r4)
                   in if c \<noteq> CHR '','' \<or> sp2 = [] \<or> yearStr = [] then None
                      else Some (monthName, dayStr, yearStr)))"

text \<open>\<open>releaseDateStr.match(...)\<close>: the leftmost position where the pattern matches.\<close>

fun matchMonthDayYear :: "string \<Rightarrow> (string \<times> string \<times> string) option" where
  "matchMonthDayYear [] = matchHere []"
| "matchMonthDayYear (c # cs) =
     (case matchHere (c # cs) of Some r \<Rightarrow> Some r | None \<Rightarrow> matchMonthDayYear cs)"

text \<open>The body of the \<open>catch\<close> block.\<close>

definition manualParse :: "string \<Rightarrow> string option" where
  "manualParse s =
     (case matchMonthDayYear s of
        None \<Rightarrow> None
      | Some (monthName, dayStr, yearStr) \<Rightarrow>
          (case map_of months (take 3 monthName) of
             None \<Rightarrow> None
           | Some m \<Rightarrow> Some (yearStr @ ''-'' @ m @ ''-'' @ padStart 2 CHR ''0'' dayStr)))"

definition convertReleaseDateToAPIFormat ::
    "(string \<Rightarrow> dateResult) \<Rightarrow> string option \<Rightarrow> string option" where
  "convertReleaseDateToAPIFormat newDate releaseDateStr =
     (case releaseDateStr of
        None \<Rightarrow> None
      | Some s \<Rightarrow>
          if s = [] then None
          else if isCanonical s then Some s
          else (case newDate s of
                  DateOk y m d \<Rightarrow> Some (formatDate y m d)
                | DateInvalid \<Rightarrow> None
                | DateThrows \<Rightarrow> manualParse s))"

section \<open>Theatre listing lookup\<close>

text \<open>
  The answer of the theatre listings endpoint as the code reads it:
  \<open>output.movieCinemaSessions\<close> (\<open>None\<close> when it is missing or not an array), each session
  with its \<open>cinema\<close> object and \<open>showCount\<close>; and the theatre record built from a session.
\<close>

record cinema =
  cinemaName :: "string option"
  cinemaTheatreId :: "string option"
  cinemaCityName :: "string option"
  cinemaAddress1 :: "string option"

record session =
  cinema :: "cinema option"
  sessionShowCount :: "nat option"

record listingsData =
  movieCinemaSessions :: "session list option"

record theater =
  name :: string
  theatreId :: "string option"
  showCount :: nat
  cityName :: "string option"
  address1 :: "string option"

text \<open>The fields of the request body the code sets per film; the others are configuration.\<close>

record listingsRequest =
  mid :: string
  dated :: string

datatype apiResult = ApiSuccess nat responseData | ApiFailure string "nat option"

text \<open>
  The collaborators of one cycle: the result of the primary request, the runtime's date
  parser, today's local full year, month index and day, the answer of the theatre
  listings endpoint to a request body (\<open>Inl\<close> the error message when the request
  fails), and the outcome of creating the Twilio call (\<open>Inl\<close> when it throws).
\<close>

record env =
  pingAPI :: apiResult
  newDate :: "string \<Rightarrow> dateResult"
  today :: "int \<times> nat \<times> nat"
  axiosListings :: "listingsRequest \<Rightarrow> string + listingsData"
  callsCreate :: "string + string"

definition todayFormatted :: "env \<Rightarrow> string" where
  "todayFormatted e = (case today e of (y, m, d) \<Rightarrow> formatDate y m d)"

text \<open>The value of \<open>dated\<close> in \<open>fetchTheaterListings\<close>; strings are compared as JavaScript
  compares them, lexicographically by code unit.\<close>

definition datedFor :: "env \<Rightarrow> string option \<Rightarrow> string" where
  "datedFor e rDate =
     (let releaseDateFormatted =
            (if truthy rDate then convertReleaseDateToAPIFormat (newDate e) rDate
             else None)
      in case releaseDateFormatted of
           None \<Rightarrow> todayFormatted e
         | Some rd \<Rightarrow>
             if rd = [] then todayFormatted e
             else if todayFormatted e > rd then todayFormatted e
             else rd)"

definition fetchTheaterListings ::
    "env \<Rightarrow> string \<Rightarrow> string option \<Rightarrow> listingsRequest \<times> (string + listingsData)" where
  "fetchTheaterListings e fcc rDate =
     (let body = \<lparr>mid = fcc, dated = datedFor e rDate\<rparr>
      in (body, axiosListings e body))"

definition pushTheater :: "theater list \<Rightarrow> session \<Rightarrow> theater list" where
  "pushTheater theaterNames s =
     (case cinema s of
        None \<Rightarrow> theaterNames
      | Some c \<Rightarrow>
          (case cinemaName c of
             None \<Rightarrow> theaterNames
           | Some n \<Rightarrow>
               if n = [] then theaterNames
               else theaterNames @
                 [\<lparr>name = n, theatreId = cinemaTheatreId c,
                   showCount = (case sessionShowCount s of None \<Rightarrow> 0 | Some k \<Rightarrow> k),
                   cityName = cinemaCityName c, address1 = cinemaAddress1 c\<rparr>]))"

definition getTheaterNames :: "listingsData \<Rightarrow> theater list" where
  "getTheaterNames listingsData =
     (case movieCinemaSessions listingsData of
        None \<Rightarrow> []
      | Some ss \<Rightarrow> foldl pushTheater [] ss)"

subsection \<open>Calendar order of canonical dates\<close>

text \<open>
  The year, month and day a canonical string denotes, as numbers, and the order of the
  calendar on such triples.
\<close>

definition digitVal :: "char \<Rightarrow> nat" where
  "digitVal c = of_char c - 48"

fun digitsVal :: "string \<Rightarrow> nat" where
  "digitsVal [] = 0"
| "digitsVal (c # cs) = digitVal c * 10 ^ length cs + digitsVal cs"

definition dateKey :: "string \<Rightarrow> nat \<times> nat \<times> nat" where
  "dateKey s = (digitsVal (take 4 s), digitsVal (take 2 (drop 5 s)), digitsVal (drop 8 s))"

fun dateBefore :: "nat \<times> nat \<times> nat \<Rightarrow> nat \<times> nat \<times> nat \<Rightarrow> bool" where
  "dateBefore (y1, m1, d1) (y2, m2, d2) =
     (y1 < y2 \<or> y1 = y2 \<and> (m1 < m2 \<or> m1 = m2 \<and> d1 < d2))"

section \<open>Configuration\<close>

text \<open>
  The fields of \<open>config\<close> the cycle reads. \<open>checkConditionExpr\<close> is the compiled
  \<open>CHECK_CONDITION\<close> expression when one is set: its truthiness on a response, \<open>None\<close>
  when evaluating it throws.
\<close>

record config =
  targetMovie :: "string option"
  movieKeywords :: "kwset list option"
  cinemaKeywords :: "kwset list option"
  checkConditionExpr :: "(responseData \<Rightarrow> bool option) option"
  twilioAccountSid :: "string option"
  twilioAuthToken :: "string option"
  twilioPhoneNumber :: "string option"
  phoneNumberToCall :: "string option"
  enablePhoneCall :: bool

text \<open>\<open>ks && Array.isArray(ks) && ks.length > 0\<close>\<close>

definition keywordsSet :: "kwset list option \<Rightarrow> bool" where
  "keywordsSet ks = (case ks of None \<Rightarrow> False | Some kss \<Rightarrow> length kss > 0)"

section \<open>Cinema matcher\<close>

datatype jsError = TypeError

record cinemaMatchResult =
  matched :: bool
  matchingTheaters :: "theater list"
  matchedSets :: "setMatch list"

text \<open>A loop whose body may throw: the first exception ends it.\<close>

fun forEachE :: "('s \<Rightarrow> 'a \<Rightarrow> jsError + 's) \<Rightarrow> 's \<Rightarrow> 'a list \<Rightarrow> jsError + 's" where
  "forEachE f s [] = Inr s"
| "forEachE f s (x # xs) = (case f s x of Inl err \<Rightarrow> Inl err | Inr s' \<Rightarrow> forEachE f s' xs)"

text \<open>
  The body of the inner loop for one theatre and one keyword set; the state is
  \<open>(matches, matchingTheaters)\<close>. \<open>keywordSet.every\<close> is not a function when the entry is
  not an array.
\<close>

definition cinemaSetStep ::
    "theater \<Rightarrow> setMatch list \<times> theater list \<Rightarrow> nat \<times> kwset \<Rightarrow>
     jsError + (setMatch list \<times> theater list)" where
  "cinemaSetStep th acc ik =
     (case snd ik of
        KwOther \<Rightarrow> Inl TypeError
      | KwArray kws \<Rightarrow>
          if list_all (\<lambda>keyword. str_includes (toLowerCase (name th)) (toLowerCase keyword)) kws
          then Inr
            (if list_ex (\<lambda>m. setIndex m = fst ik) (fst acc) then fst acc
             else fst acc @ [\<lparr>keywordSet = snd ik, setIndex = fst ik\<rparr>],
             if list_ex (\<lambda>t. name t = name th) (snd acc) then snd acc
             else snd acc @ [th])
          else Inr acc)"

definition checkCinemaKeywords :: "config \<Rightarrow> theater list \<Rightarrow> jsError + cinemaMatchResult" where
  "checkCinemaKeywords cfg theaterNames =
     (if \<not> keywordsSet (cinemaKeywords cfg)
      then Inr \<lparr>matched = True, matchingTheaters = theaterNames, matchedSets = []\<rparr>
      else
        (case forEachE
                (\<lambda>acc th. forEachE (cinemaSetStep th) acc
                   (enumerate 0 (case cinemaKeywords cfg of Some kss \<Rightarrow> kss | None \<Rightarrow> [])))
                ([], []) theaterNames of
           Inl err \<Rightarrow> Inl err
         | Inr acc \<Rightarrow>
             Inr \<lparr>matched = length (fst acc) > 0, matchingTheaters = snd acc,
                  matchedSets = fst acc\<rparr>))"

text \<open>
  \<open>everyKeywordIn ks n\<close> is the test the cinema matcher makes on an array \<open>ks\<close> and a
  theatre name \<open>n\<close>: every keyword, in lower case, occurs in the name in lower case.
  \<open>arraysOnly\<close>: every keyword set of an indexed configuration is an array.
\<close>

definition everyKeywordIn :: "kwset \<Rightarrow> string \<Rightarrow> bool" where
  "everyKeywordIn ks n =
     (case ks of
        KwArray kws \<Rightarrow>
          list_all (\<lambda>keyword. str_includes (toLowerCase n) (toLowerCase keyword)) kws
      | KwOther \<Rightarrow> False)"

definition arraysOnly :: "(nat \<times> kwset) list \<Rightarrow> bool" where
  "arraysOnly iks = (\<forall>ik \<in> set iks. \<exists>kws. snd ik = KwArray kws)"

section \<open>Match-identity deduplicator and escalation\<close>

text \<open>What a cycle does to the outside world, in order.\<close>

datatype notification =
    ApiErrorMessage "nat option" string
  | UpdateMessage "filmMatch list" "cinemaMatchResult option" "string list"

datatype event =
    Telegram notification
  | TheaterListingsRequest listingsRequest
  | TwilioCall
  | ConditionEvaluated

text \<open>
  \<open>makePhoneCall\<close> on the set \<open>phoneCallMade\<close>: the value returned, the set afterwards and
  the call attempted. \<open>outcome\<close> is what \<open>client.calls.create\<close> does: \<open>Inr\<close> the call's
  SID, \<open>Inl\<close> the message of the exception.
\<close>

definition makePhoneCall ::
    "config \<Rightarrow> string + string \<Rightarrow> string option \<Rightarrow> string set \<Rightarrow>
     bool \<times> string set \<times> event list" where
  "makePhoneCall cfg outcome mKey phoneCallMade =
     (if \<not> enablePhoneCall cfg then (False, phoneCallMade, [])
      else if \<not> truthy (twilioAccountSid cfg) \<or> \<not> truthy (twilioAuthToken cfg) \<or>
              \<not> truthy (twilioPhoneNumber cfg) \<or> \<not> truthy (phoneNumberToCall cfg)
      then (False, phoneCallMade, [])
      else if truthy mKey \<and> (case mKey of Some k \<Rightarrow> k \<in> phoneCallMade | None \<Rightarrow> False)
      then (False, phoneCallMade, [])
      else (case outcome of
              Inr sid \<Rightarrow>
                (True,
                 (case mKey of
                    Some k \<Rightarrow> if k = [] then phoneCallMade else insert k phoneCallMade
                  | None \<Rightarrow> phoneCallMade),
                 [TwilioCall])
            | Inl err \<Rightarrow> (False, phoneCallMade, [TwilioCall])))"



text \<open>\<open>xs.join(sep)\<close> and the default \<open>xs.sort()\<close> (ascending by code units).\<close>

fun join :: "string \<Rightarrow> string list \<Rightarrow> string" where
  "join sep [] = []"
| "join sep [x] = x"
| "join sep (x # y # ys) = x @ sep @ join sep (y # ys)"

text \<open>The key built at the end of a notifying cycle, \<open>None\<close> for \<open>null\<close>.\<close>

definition computeMatchKey ::
    "config \<Rightarrow> filmMatch list \<Rightarrow> string list \<Rightarrow> cinemaMatchResult option \<Rightarrow> bool \<Rightarrow>
     string option" where
  "computeMatchKey cfg keywordMatches filmCommonCodes cinemaResult targetMovieFound =
     (if length keywordMatches > 0 \<and> length filmCommonCodes > 0
      then
        (let theaterNames =
               (case cinemaResult of
                  None \<Rightarrow> ''all''
                | Some r \<Rightarrow>
                    if length (matchingTheaters r) > 0
                    then join '','' (sort (map name (matchingTheaters r)))
                    else ''all'')
         in Some (join '','' (sort filmCommonCodes) @ ''|'' @ theaterNames))
      else if targetMovieFound
      then Some (''legacy|'' @ (case targetMovie cfg of Some t \<Rightarrow> t | None \<Rightarrow> ''null''))
      else None)"

section \<open>Monitor cycle\<close>

definition hasFilm :: "string list \<Rightarrow> string \<Rightarrow> bool" where
  "hasFilm filmNames search =
     list_ex (\<lambda>n. str_includes (toLowerCase n) (toLowerCase search)) filmNames"

text \<open>The condition of the cycle, with the event of running a configured expression.\<close>

definition checkCondition :: "config \<Rightarrow> responseData \<Rightarrow> bool \<times> event list" where
  "checkCondition cfg rdata =
     (let movies = getMovies rdata; filmNames = getAllFilmNames movies
      in case checkConditionExpr cfg of
           Some expr \<Rightarrow>
             ((case expr rdata of Some b \<Rightarrow> b | None \<Rightarrow> False), [ConditionEvaluated])
         | None \<Rightarrow>
             if keywordsSet (movieKeywords cfg)
             then (length (checkKeywordSets (movieKeywords cfg) filmNames) > 0, [])
             else (case targetMovie cfg of
                     Some t \<Rightarrow>
                       if t \<noteq> [] then (hasFilm filmNames t, []) else (length movies > 0, [])
                   | None \<Rightarrow> (length movies > 0, [])))"

definition getMatchingKeywordSets :: "config \<Rightarrow> responseData \<Rightarrow> filmMatch list" where
  "getMatchingKeywordSets cfg rdata =
     (if keywordsSet (movieKeywords cfg)
      then checkKeywordSets (movieKeywords cfg) (getAllFilmNames (getMovies rdata))
      else [])"

text \<open>One pass of the loop over the film codes: the request sent, the theatres appended.\<close>

definition fetchStep ::
    "env \<Rightarrow> event list \<times> theater list \<Rightarrow> filmInfo \<Rightarrow> event list \<times> theater list" where
  "fetchStep e acc filmInfoItem =
     (case fetchTheaterListings e (code filmInfoItem) (releaseDate filmInfoItem) of
        (req, Inr d) \<Rightarrow> (fst acc @ [TheaterListingsRequest req], snd acc @ getTheaterNames d)
      | (req, Inl err) \<Rightarrow> (fst acc @ [TheaterListingsRequest req], snd acc))"

text \<open>\<open>Array.from(new Map(ts.map(t => [t.name, t])).values())\<close>\<close>

definition uniqueByName :: "theater list \<Rightarrow> theater list" where
  "uniqueByName ts = map snd (foldl (\<lambda>m t. AList.update (name t) t m) [] ts)"

text \<open>
  The result of a cycle: what it did, the set \<open>phoneCallMade\<close> afterwards, the key it
  passed to \<open>makePhoneCall\<close> (\<open>None\<close> when it passed \<open>null\<close> or did not get there) and the
  exception it ended with, if any.
\<close>

record cycleResult =
  events :: "event list"
  seenKeys :: "string set"
  matchKey :: "string option"
  thrown :: "jsError option"

text \<open>The branch \<open>if (shouldNotify)\<close>: one notification, the key, the phone call.\<close>

definition notifyAndCall ::
    "config \<Rightarrow> env \<Rightarrow> string set \<Rightarrow> event list \<Rightarrow> filmMatch list \<Rightarrow> string list \<Rightarrow>
     cinemaMatchResult option \<Rightarrow> bool \<Rightarrow> string list \<Rightarrow> cycleResult" where
  "notifyAndCall cfg e phoneCallMade done keywordMatches filmCommonCodes cinemaResult
       targetMovieFound allMatchingFilms =
     (let message = UpdateMessage keywordMatches cinemaResult
                      (if length keywordMatches > 0 then []
                       else if targetMovieFound then allMatchingFilms else []);
          mKey = computeMatchKey cfg keywordMatches filmCommonCodes cinemaResult targetMovieFound
      in case makePhoneCall cfg (callsCreate e) mKey phoneCallMade of
           (callMade, seen, call) \<Rightarrow>
             \<lparr>events = done @ [Telegram message] @ call, seenKeys = seen, matchKey = mKey,
              thrown = None\<rparr>)"

definition monitor :: "config \<Rightarrow> env \<Rightarrow> string set \<Rightarrow> cycleResult" where
  "monitor cfg e phoneCallMade =
     (case pingAPI e of
        ApiFailure err status \<Rightarrow>
          \<lparr>events = [Telegram (ApiErrorMessage status err)], seenKeys = phoneCallMade,
           matchKey = None, thrown = None\<rparr>
      | ApiSuccess status rdata \<Rightarrow>
          (case checkCondition cfg rdata of
             (conditionMet, ev) \<Rightarrow>
               if conditionMet
               then
                 (let movies = getMovies rdata;
                      filmNames = getAllFilmNames movies;
                      keywordMatches = getMatchingKeywordSets cfg rdata;
                      targetMovieFound =
                        (case targetMovie cfg of
                           None \<Rightarrow> False
                         | Some t \<Rightarrow> t \<noteq> [] \<and> hasFilm filmNames t)
                  in if length keywordMatches > 0
                     then
                       (let allMatchingFilms = concat (map matchingFilms keywordMatches);
                            filmInfos = extractFilmInfo movies allMatchingFilms;
                            filmCommonCodes = map code filmInfos;
                            fetched = foldl (fetchStep e) (ev, []) filmInfos;
                            uniqueTheaters = uniqueByName (snd fetched)
                        in case checkCinemaKeywords cfg uniqueTheaters of
                             Inl err \<Rightarrow>
                               \<lparr>events = fst fetched, seenKeys = phoneCallMade,
                                matchKey = None, thrown = Some err\<rparr>
                           | Inr cinemaResult \<Rightarrow>
                               if keywordsSet (cinemaKeywords cfg)
                               then
                                 (if matched cinemaResult
                                  then notifyAndCall cfg e phoneCallMade (fst fetched)
                                         keywordMatches filmCommonCodes (Some cinemaResult)
                                         targetMovieFound allMatchingFilms
                                  else \<lparr>events = fst fetched, seenKeys = phoneCallMade,
                                        matchKey = None, thrown = None\<rparr>)
                               else notifyAndCall cfg e phoneCallMade (fst fetched)
                                      keywordMatches filmCommonCodes
                                      (Some \<lparr>matched = True, matchingTheaters = uniqueTheaters,
                                              matchedSets = []\<rparr>)
                                      targetMovieFound allMatchingFilms)
                     else if targetMovieFound
                     then notifyAndCall cfg e phoneCallMade ev keywordMatches [] None True
                            (filter (\<lambda>n. str_includes (toLowerCase n)
                                       (toLowerCase (case targetMovie cfg of Some t \<Rightarrow> t
                                                     | None \<Rightarrow> ''null''))) filmNames)
                     else notifyAndCall cfg e phoneCallMade ev keywordMatches [] None False [])
               else \<lparr>events = ev, seenKeys = phoneCallMade, matchKey = None,
                     thrown = None\<rparr>))"

section \<open>Escalations over the life of the process\<close>







text \<open>Phone calls are enabled and the four Twilio settings are present.\<close>

definition twilioReady :: "config \<Rightarrow> bool" where
  "twilioReady cfg =
     (enablePhoneCall cfg \<and> truthy (twilioAccountSid cfg) \<and> truthy (twilioAuthToken cfg) \<and>
      truthy (twilioPhoneNumber cfg) \<and> truthy (phoneNumberToCall cfg))"

section \<open>Example inputs\<close>

definition demoConfig :: config where
  "demoConfig =
     \<lparr>targetMovie = None, movieKeywords = Some [KwArray [''Spider'', ''No Way Home'']],
      cinemaKeywords = None, checkConditionExpr = None,
      twilioAccountSid = Some ''AC0'', twilioAuthToken = Some ''token'',
      twilioPhoneNumber = Some ''+100'', phoneNumberToCall = Some ''+200'',
      enablePhoneCall = True\<rparr>"

definition demoResponse :: responseData where
  "demoResponse =
     \<lparr>output_mv = Some
        [\<lparr>movieFilmName = Some ''Spider-Man: No Way Home'',
          films = Some [\<lparr>filmName = Some ''Spider-Man: No Way Home'',
                         filmCommonCode = Some ''F1'', filmReleaseDate = None\<rparr>],
          movieReleaseDate = Some ''2025-11-14'', year = None, month = None, day = None\<rparr>]\<rparr>"

definition demoListings :: listingsData where
  "demoListings =
     \<lparr>movieCinemaSessions = Some
        [\<lparr>cinema = Some \<lparr>cinemaName = Some ''City Mall - IMAX'', cinemaTheatreId = None,
                          cinemaCityName = None, cinemaAddress1 = None\<rparr>,
          sessionShowCount = Some 3\<rparr>]\<rparr>"

definition demoTheaters :: "theater list" where
  "demoTheaters =
     [\<lparr>name = ''City Mall - Digital'', theatreId = None, showCount = 2, cityName = None,
       address1 = None\<rparr>,
      \<lparr>name = ''City Mall - IMAX'', theatreId = None, showCount = 3, cityName = None,
       address1 = None\<rparr>]"

text \<open>
  A date parser that knows two strings in ECMAScript's expanded-year format, one in the
  year 999 and one in the year 12345.
\<close>

definition expandedYearDate :: "string \<Rightarrow> dateResult" where
  "expandedYearDate s =
     (if s = ''+000999-06-15'' then DateOk 999 5 15
      else if s = ''+012345-06-15'' then DateOk 12345 5 15
      else DateInvalid)"

definition demoEnv :: env where
  "demoEnv =
     \<lparr>pingAPI = ApiSuccess 200 demoResponse, newDate = (\<lambda>s. DateInvalid),
      today = (2026, 10, 1), axiosListings = (\<lambda>req. Inr demoListings),
      callsCreate = Inr ''CA1''\<rparr>"

section \<open>Properties of the keyword matcher\<close>

lemma str_includes_iff: "str_includes hay needle \<longleftrightarrow> sublist needle hay"
  by (induction hay) (auto simp: sublist_Cons_right)

lemma pushFilmMatch_ok:
  "list_all (\<lambda>m. matchingFilms m \<noteq> [] \<and>
               matchingFilms m = checkKeywordSet (keywordSet m) filmNames) matches \<Longrightarrow>
   list_all (\<lambda>m. matchingFilms m \<noteq> [] \<and>
               matchingFilms m = checkKeywordSet (keywordSet m) filmNames)
     (pushFilmMatch filmNames matches ik)"
  by (simp add: pushFilmMatch_def Let_def)

lemma foldl_pushFilmMatch_ok:
  "list_all (\<lambda>m. matchingFilms m \<noteq> [] \<and>
               matchingFilms m = checkKeywordSet (keywordSet m) filmNames) matches \<Longrightarrow>
   list_all (\<lambda>m. matchingFilms m \<noteq> [] \<and>
               matchingFilms m = checkKeywordSet (keywordSet m) filmNames)
     (foldl (pushFilmMatch filmNames) matches iks)"
  by (induction iks arbitrary: matches) (simp_all add: pushFilmMatch_ok)

lemma checkKeywordSets_ok:
  "list_all (\<lambda>m. matchingFilms m \<noteq> [] \<and>
               matchingFilms m = checkKeywordSet (keywordSet m) filmNames)
     (checkKeywordSets keywordSets filmNames)"
  by (simp add: checkKeywordSets_def foldl_pushFilmMatch_ok split: option.splits)

text \<open>
  C8. Every entry \<open>checkKeywordSets\<close> returns has a non-empty \<open>matchingFilms\<close> list, which
  is what \<open>checkKeywordSet\<close> gives for the entry's keyword set; and \<open>checkKeywordSet\<close>
  returns no name for an empty keyword set and for a keyword set that is not an array.
\<close>

theorem checkKeywordSets_never_empty:
  "(\<forall>m \<in> set (checkKeywordSets keywordSets filmNames).
      matchingFilms m \<noteq> [] \<and> matchingFilms m = checkKeywordSet (keywordSet m) filmNames) \<and>
   checkKeywordSet (KwArray []) filmNames = [] \<and>
   checkKeywordSet KwOther filmNames = []"
  using checkKeywordSets_ok [of filmNames keywordSets]
  by (auto simp: list_all_iff)

theorem checkKeywordSets_never_empty_witness:
  "checkKeywordSets (Some [KwArray [''zzz''], KwArray [''Spider'', ''No Way Home''], KwArray [], KwOther])
       [''Spider-Man: No Way Home'', ''Dune''] =
     [\<lparr>keywordSet = KwArray [''Spider'', ''No Way Home''], setIndex = 1,
       matchingFilms = [''Spider-Man: No Way Home'']\<rparr>] \<and>
   checkKeywordSet (KwArray []) [''Spider-Man: No Way Home'', ''Dune''] = [] \<and>
   checkKeywordSet KwOther [''Spider-Man: No Way Home'', ''Dune''] = []"
  using checkKeywordSets_never_empty
    [of "Some [KwArray [''zzz''], KwArray [''Spider'', ''No Way Home''], KwArray [], KwOther]"
        "[''Spider-Man: No Way Home'', ''Dune'']"]
  by (simp add: checkKeywordSets_def pushFilmMatch_def toLowerCase_def toLowerChar_def)

section \<open>Properties of the film info resolver\<close>

lemma recordAll_append: "recordAll m (xs @ ys) = recordAll (recordAll m xs) ys"
  by (simp add: recordAll_def)

lemma recordAll_Nil: "recordAll m [] = m"
  by (simp add: recordAll_def)

lemma foldl_recordByMovie:
  "foldl (recordByMovie (jsor (movieReleaseDate movie) (dateFromParts movie))) m fs =
   recordAll m (concat (map (byMovieOccurrence movie) fs))"
proof (induction fs arbitrary: m)
  case Nil
  then show ?case by (simp add: recordAll_def)
next
  case (Cons f fs)
  have "recordByMovie (jsor (movieReleaseDate movie) (dateFromParts movie)) m f =
        recordAll m (byMovieOccurrence movie f)"
    by (simp add: recordByMovie_def byMovieOccurrence_def recordAll_def split: option.splits)
  then show ?case using Cons.IH by (simp add: recordAll_append)
qed

lemma foldl_recordByFilm:
  "foldl (recordByFilm matching movie) m fs =
   recordAll m (concat (map (byFilmOccurrence matching movie) fs))"
proof (induction fs arbitrary: m)
  case Nil
  then show ?case by (simp add: recordAll_def)
next
  case (Cons f fs)
  have "recordByFilm matching movie m f = recordAll m (byFilmOccurrence matching movie f)"
    by (simp add: recordByFilm_def byFilmOccurrence_def recordAll_def split: option.splits)
  then show ?case using Cons.IH by (simp add: recordAll_append)
qed

lemma extractMovie_occurrences:
  "extractMovie matching m movie = recordAll m (movieOccurrences matching movie)"
  by (simp add: extractMovie_def movieOccurrences_def Let_def foldl_recordByMovie
      foldl_recordByFilm recordAll_append recordAll_Nil split: option.splits)

lemma foldl_extractMovie:
  "foldl (extractMovie matching) m movies = recordAll m (occurrences matching movies)"
  by (induction movies arbitrary: m)
     (simp_all add: occurrences_def extractMovie_occurrences recordAll_append recordAll_Nil)

lemma jsor_ok: "dateOk b \<Longrightarrow> dateOk (jsor a b)"
  by (simp add: jsor_def dateOk_def)

lemma dateFromParts_ok: "dateOk (dateFromParts movie)"
  by (simp add: dateFromParts_def dateOk_def truthy_def formatDateFromParts_def
      split: option.splits)

lemma occurrences_ok: "p \<in> set (occurrences matching movies) \<Longrightarrow> dateOk (snd p)"
  by (auto simp: occurrences_def movieOccurrences_def byMovieOccurrence_def
      byFilmOccurrence_def jsor_ok dateFromParts_ok split: option.splits if_splits)

lemma recordAll_snoc: "recordAll m (occ @ [p]) = recordCode (recordAll m occ) (fst p) (snd p)"
  by (simp add: recordAll_def)

lemma firstKnownDate_snoc_other:
  "fst p \<noteq> c \<Longrightarrow> firstKnownDate c (occ @ [p]) = firstKnownDate c occ"
  by (simp add: firstKnownDate_def)

lemma firstKnownDate_snoc_same:
  "firstKnownDate (fst p) (occ @ [p]) =
     (if firstKnownDate (fst p) occ = None then snd p else firstKnownDate (fst p) occ)"
  by (cases "filter (\<lambda>q. fst q = fst p \<and> snd q \<noteq> None) occ")
     (auto simp: firstKnownDate_def split: list.splits dest: filter_eq_ConsD)

lemma firstKnownDate_ok:
  "\<forall>p \<in> set occ. dateOk (snd p) \<Longrightarrow> dateOk (firstKnownDate c occ)"
proof -
  assume a: "\<forall>p \<in> set occ. dateOk (snd p)"
  show ?thesis
  proof (cases "filter (\<lambda>p. fst p = c \<and> snd p \<noteq> None) occ")
    case Nil
    then show ?thesis by (simp add: firstKnownDate_def dateOk_def)
  next
    case (Cons q qs)
    then have "q \<in> set (filter (\<lambda>p. fst p = c \<and> snd p \<noteq> None) occ)" by simp
    then have "q \<in> set occ" by simp
    then show ?thesis using a Cons by (simp add: firstKnownDate_def)
  qed
qed

lemma recordAll_props:
  "\<forall>p \<in> set occ. dateOk (snd p) \<Longrightarrow>
   distinct (map fst (recordAll [] occ)) \<and>
   fst ` set (recordAll [] occ) = fst ` set occ \<and>
   (\<forall>c. map_of (recordAll [] occ) c =
        (if c \<in> fst ` set occ then Some (firstKnownDate c occ) else None))"
proof (induction occ rule: rev_induct)
  case Nil
  then show ?case by (simp add: recordAll_def)
next
  case (snoc p occ)
  let ?m = "recordAll [] occ"
  have ih: "distinct (map fst ?m)" "fst ` set ?m = fst ` set occ"
    "\<And>c. map_of ?m c = (if c \<in> fst ` set occ then Some (firstKnownDate c occ) else None)"
    using snoc by auto
  have ok: "dateOk (firstKnownDate (fst p) occ)"
    using firstKnownDate_ok snoc.prems by simp
  show ?case
  proof (cases "\<not> mapHas ?m (fst p) \<or> \<not> truthy (mapGet ?m (fst p))")
    case True
    then have r: "recordAll [] (occ @ [p]) = AList.update (fst p) (snd p) ?m"
      by (simp add: recordAll_snoc recordCode_def)
    have none: "fst p \<in> fst ` set occ \<Longrightarrow> firstKnownDate (fst p) occ = None"
      using True ih(3) [of "fst p"] ok by (auto simp: mapHas_def mapGet_def dateOk_def)
    have new: "firstKnownDate (fst p) occ = None" if "fst p \<notin> fst ` set occ"
    proof -
      have "filter (\<lambda>q. fst q = fst p \<and> snd q \<noteq> None) occ = []"
      proof (rule ccontr)
        assume "filter (\<lambda>q. fst q = fst p \<and> snd q \<noteq> None) occ \<noteq> []"
        then obtain q where "q \<in> set occ" "fst q = fst p"
          by (auto simp: filter_empty_conv)
        then have "fst p \<in> fst ` set occ" by (metis imageI)
        then show False using that by simp
      qed
      then show ?thesis by (simp add: firstKnownDate_def)
    qed
    have "firstKnownDate (fst p) occ = None"
      using none new by blast
    then have fk: "firstKnownDate (fst p) (occ @ [p]) = snd p"
      by (simp add: firstKnownDate_snoc_same)
    have every: "firstKnownDate c (occ @ [p]) = (if c = fst p then snd p else firstKnownDate c occ)"
      for c
      using fk firstKnownDate_snoc_other [of p c occ] by (cases "c = fst p") auto
    show ?thesis
      using ih
      by (simp add: r every AList.distinct_update AList.dom_update AList.update_conv')
  next
    case False
    then have r: "recordAll [] (occ @ [p]) = ?m"
      by (simp add: recordAll_snoc recordCode_def)
    have inn: "fst p \<in> fst ` set occ"
      using False ih(3) [of "fst p"] by (auto simp: mapHas_def split: if_splits)
    have "firstKnownDate (fst p) occ \<noteq> None"
      using False ih(3) [of "fst p"] inn
      by (auto simp: mapGet_def truthy_def split: option.splits)
    then have fk: "firstKnownDate (fst p) (occ @ [p]) = firstKnownDate (fst p) occ"
      by (auto simp: firstKnownDate_snoc_same)
    have every: "firstKnownDate c (occ @ [p]) = firstKnownDate c occ" for c
      using fk firstKnownDate_snoc_other [of p c occ] by (cases "c = fst p") auto
    show ?thesis
      using ih inn by (auto simp: r every)
  qed
qed

text \<open>
  C7. \<open>extractFilmInfo\<close> returns one entry per film identifier, for exactly the
  identifiers that occur among the matching movies, and the date of an entry is the first
  date met for its identifier that is not \<open>null\<close> (\<open>null\<close> when every occurrence has none);
  a later occurrence, with or without a date, leaves a recorded date as it is.
\<close>

theorem extractFilmInfo_first_date:
  "distinct (map code (extractFilmInfo movies matching)) \<and>
   set (map code (extractFilmInfo movies matching)) = fst ` set (occurrences matching movies) \<and>
   (\<forall>fi \<in> set (extractFilmInfo movies matching).
      releaseDate fi = firstKnownDate (code fi) (occurrences matching movies)) \<and>
   (mapHas m c \<and> truthy (mapGet m c) \<longrightarrow> recordCode m c d = m)"
proof -
  let ?occ = "occurrences matching movies"
  let ?m = "recordAll [] ?occ"
  have e: "extractFilmInfo movies matching = map (\<lambda>(c, d). \<lparr>code = c, releaseDate = d\<rparr>) ?m"
    by (simp add: extractFilmInfo_def foldl_extractMovie)
  have codes: "map code (extractFilmInfo movies matching) = map fst ?m"
    by (simp add: e split_def comp_def)
  have p: "distinct (map fst ?m)" "fst ` set ?m = fst ` set ?occ"
    "\<And>c. map_of ?m c = (if c \<in> fst ` set ?occ then Some (firstKnownDate c ?occ) else None)"
    using recordAll_props [of ?occ] occurrences_ok by auto
  have d: "\<forall>fi \<in> set (extractFilmInfo movies matching).
      releaseDate fi = firstKnownDate (code fi) ?occ"
  proof
    fix fi assume "fi \<in> set (extractFilmInfo movies matching)"
    then obtain c' d' where q: "(c', d') \<in> set ?m" "fi = \<lparr>code = c', releaseDate = d'\<rparr>"
      by (auto simp: e)
    then have "map_of ?m c' = Some d'" using p(1) by simp
    then have "d' = firstKnownDate c' ?occ" using p(3) [of c'] by (auto split: if_splits)
    then show "releaseDate fi = firstKnownDate (code fi) ?occ" using q by simp
  qed
  have "set (map code (extractFilmInfo movies matching)) = fst ` set ?occ"
    using codes p(2) by simp
  moreover have "distinct (map code (extractFilmInfo movies matching))"
    using codes p(1) by simp
  moreover have "mapHas m c \<and> truthy (mapGet m c) \<longrightarrow> recordCode m c d = m"
    by (simp add: recordCode_def)
  ultimately show ?thesis using d by blast
qed

theorem extractFilmInfo_first_date_witness:
  "extractFilmInfo
     [\<lparr>movieFilmName = Some ''Dune'',
       films = Some [\<lparr>filmName = Some ''Dune'', filmCommonCode = Some ''F9'',
                      filmReleaseDate = Some ''2024-03-01''\<rparr>],
       movieReleaseDate = None, year = None, month = None, day = None\<rparr>,
      \<lparr>movieFilmName = Some ''Spider-Man'',
       films = Some [\<lparr>filmName = Some ''Spider-Man IMAX'', filmCommonCode = Some ''F1'',
                      filmReleaseDate = None\<rparr>,
                    \<lparr>filmName = Some ''Spider-Man'', filmCommonCode = Some ''F2'',
                      filmReleaseDate = Some ''2025-12-01''\<rparr>],
       movieReleaseDate = None, year = None, month = None, day = None\<rparr>,
      \<lparr>movieFilmName = Some ''Spider-Man'',
       films = Some [\<lparr>filmName = None, filmCommonCode = Some ''F1'',
                      filmReleaseDate = Some ''Nov 14, 2025''\<rparr>],
       movieReleaseDate = None, year = None, month = None, day = None\<rparr>,
      \<lparr>movieFilmName = Some ''Spider-Man'',
       films = Some [\<lparr>filmName = None, filmCommonCode = Some ''F1'',
                      filmReleaseDate = None\<rparr>],
       movieReleaseDate = None, year = Some ''2026'', month = Some ''1'', day = Some ''2''\<rparr>]
     [''Spider-Man''] =
     [\<lparr>code = ''F1'', releaseDate = Some ''Nov 14, 2025''\<rparr>,
      \<lparr>code = ''F2'', releaseDate = Some ''2025-12-01''\<rparr>] \<and>
   mapHas [(''F1'', Some ''Nov 14, 2025'')] ''F1'' \<and>
   truthy (mapGet [(''F1'', Some ''Nov 14, 2025'')] ''F1'') \<and>
   recordCode [(''F1'', Some ''Nov 14, 2025'')] ''F1'' None = [(''F1'', Some ''Nov 14, 2025'')]"
  using extractFilmInfo_first_date
    [of "[\<lparr>movieFilmName = Some ''Dune'',
       films = Some [\<lparr>filmName = Some ''Dune'', filmCommonCode = Some ''F9'',
                      filmReleaseDate = Some ''2024-03-01''\<rparr>],
       movieReleaseDate = None, year = None, month = None, day = None\<rparr>,
      \<lparr>movieFilmName = Some ''Spider-Man'',
       films = Some [\<lparr>filmName = Some ''Spider-Man IMAX'', filmCommonCode = Some ''F1'',
                      filmReleaseDate = None\<rparr>,
                    \<lparr>filmName = Some ''Spider-Man'', filmCommonCode = Some ''F2'',
                      filmReleaseDate = Some ''2025-12-01''\<rparr>],
       movieReleaseDate = None, year = None, month = None, day = None\<rparr>,
      \<lparr>movieFilmName = Some ''Spider-Man'',
       films = Some [\<lparr>filmName = None, filmCommonCode = Some ''F1'',
                      filmReleaseDate = Some ''Nov 14, 2025''\<rparr>],
       movieReleaseDate = None, year = None, month = None, day = None\<rparr>,
      \<lparr>movieFilmName = Some ''Spider-Man'',
       films = Some [\<lparr>filmName = None, filmCommonCode = Some ''F1'',
                      filmReleaseDate = None\<rparr>],
       movieReleaseDate = None, year = Some ''2026'', month = Some ''1'', day = Some ''2''\<rparr>]"
      "[''Spider-Man'']" "[(''F1'', Some ''Nov 14, 2025'')]" "''F1''" None]
  by (simp add: extractFilmInfo_def extractMovie_def movieNameMatches_def recordByMovie_def
      recordByFilm_def recordCode_def mapHas_def mapGet_def truthy_def jsor_def
      dateFromParts_def formatDateFromParts_def padStart_def)

section \<open>Properties of the release-date normalizer\<close>

lemma isCanonical_nonempty: "isCanonical s \<Longrightarrow> s \<noteq> []"
  by (auto simp: isCanonical_def)

text \<open>
  C6. A string already in the form YYYY-MM-DD is returned unchanged, whatever the
  runtime's date parser does, so normalizing it twice gives what normalizing it once gives.
\<close>

theorem convert_canonical_unchanged:
  "isCanonical s \<Longrightarrow>
   convertReleaseDateToAPIFormat nd (Some s) = Some s \<and>
   convertReleaseDateToAPIFormat nd (convertReleaseDateToAPIFormat nd (Some s)) =
     convertReleaseDateToAPIFormat nd (Some s)"
  by (auto simp: convertReleaseDateToAPIFormat_def dest: isCanonical_nonempty)

theorem convert_canonical_unchanged_witness:
  "isCanonical ''2025-11-14'' \<and>
   convertReleaseDateToAPIFormat (\<lambda>s. DateInvalid) (Some ''2025-11-14'') = Some ''2025-11-14'' \<and>
   convertReleaseDateToAPIFormat (\<lambda>s. DateInvalid)
     (convertReleaseDateToAPIFormat (\<lambda>s. DateInvalid) (Some ''2025-11-14'')) =
     convertReleaseDateToAPIFormat (\<lambda>s. DateInvalid) (Some ''2025-11-14'')"
proof -
  have c: "isCanonical ''2025-11-14''" by (simp add: isCanonical_def isDigit_def)
  show ?thesis using c convert_canonical_unchanged [OF c, of "\<lambda>s. DateInvalid"] by simp
qed

text \<open>
  C5. The month table is consulted only in the \<open>catch\<close> block. For \<open>Nov 32, 2025\<close>, which
  the generic parser rejects with an Invalid Date, the normalizer returns \<open>null\<close>, although
  the pattern and the month table give \<open>2025-11-32\<close> (and would be used had the parser
  thrown).
\<close>

theorem convert_invalid_date_skips_month_table:
  "convertReleaseDateToAPIFormat (\<lambda>s. DateInvalid) (Some ''Nov 32, 2025'') = None \<and>
   manualParse ''Nov 32, 2025'' = Some ''2025-11-32'' \<and>
   convertReleaseDateToAPIFormat (\<lambda>s. DateThrows) (Some ''Nov 32, 2025'') = Some ''2025-11-32''"
  by (simp add: convertReleaseDateToAPIFormat_def isCanonical_def manualParse_def matchHere_def
      isWord_def isDigit_def isSpace_def months_def padStart_def)

section \<open>Properties of the theatre listing lookup\<close>

lemma nat_pair_less:
  fixes a a' r r' B :: nat
  assumes "r < B" and "r' < B"
  shows "(a * B + r < a' * B + r') = (a < a' \<or> a = a' \<and> r < r')"
proof (cases "a < a'")
  case True
  then have "Suc a \<le> a'" by simp
  then have "Suc a * B \<le> a' * B" by (rule mult_le_mono1)
  then have "a * B + r < a' * B + r'" using assms(1) by simp
  then show ?thesis using True by simp
next
  case False
  show ?thesis
  proof (cases "a = a'")
    case True
    then show ?thesis by simp
  next
    case neq: False
    then have "Suc a' \<le> a" using False by simp
    then have "Suc a' * B \<le> a * B" by (rule mult_le_mono1)
    then have "\<not> a * B + r < a' * B + r'" using assms(2) by simp
    then show ?thesis using False neq by simp
  qed
qed

lemma nat_pair_eq:
  fixes a a' r r' B :: nat
  assumes "r < B" and "r' < B"
  shows "(a * B + r = a' * B + r') = (a = a' \<and> r = r')"
  using nat_pair_less [OF assms, of a a'] nat_pair_less [OF assms(2,1), of a' a]
  by (metis less_irrefl nat_neq_iff add_left_cancel)

lemma isDigit_range: "isDigit c \<longleftrightarrow> 48 \<le> (of_char c :: nat) \<and> (of_char c :: nat) \<le> 57"
  by (simp add: isDigit_def less_eq_char_def)

lemma digit_less: "isDigit c \<Longrightarrow> isDigit c' \<Longrightarrow> (c < c') = (digitVal c < digitVal c')"
  by (auto simp: isDigit_range digitVal_def less_char_def)

lemma diff_eq_iff: "k \<le> n \<Longrightarrow> k \<le> n' \<Longrightarrow> (n - k = n' - k) = (n = (n' :: nat))"
  by (simp add: eq_diff_iff)

lemma digit_eq: "isDigit c \<Longrightarrow> isDigit c' \<Longrightarrow> (c = c') = (digitVal c = digitVal c')"
proof -
  assume a: "isDigit c" "isDigit c'"
  have "48 \<le> (of_char c :: nat)" "48 \<le> (of_char c' :: nat)"
    using a by (simp_all add: isDigit_range)
  then have e: "(digitVal c = digitVal c') = ((of_char c :: nat) = of_char c')"
    unfolding digitVal_def by (rule diff_eq_iff)
  show ?thesis unfolding e by (simp only: of_char_eq_iff)
qed

lemma digitVal_le: "isDigit c \<Longrightarrow> digitVal c \<le> 9"
  by (auto simp: isDigit_range digitVal_def)

lemma digitsVal_bound: "list_all isDigit cs \<Longrightarrow> digitsVal cs < 10 ^ length cs"
proof (induction cs)
  case Nil
  then show ?case by simp
next
  case (Cons c cs)
  then have "digitVal c \<le> 9" and b: "digitsVal cs < 10 ^ length cs"
    by (simp_all add: digitVal_le)
  then have "digitVal c * 10 ^ length cs \<le> 9 * 10 ^ length cs" by simp
  then have "digitVal c * 10 ^ length cs + digitsVal cs < 9 * 10 ^ length cs + 10 ^ length cs"
    using b by (rule add_le_less_mono)
  then show ?case by simp
qed

lemma digits_order:
  "length xs = length ys \<Longrightarrow> list_all isDigit xs \<Longrightarrow> list_all isDigit ys \<Longrightarrow>
   (xs < ys) = (digitsVal xs < digitsVal ys) \<and> (xs = ys) = (digitsVal xs = digitsVal ys)"
proof (induction xs ys rule: list_induct2)
  case Nil
  then show ?case by simp
next
  case (Cons x xs y ys)
  then have d: "isDigit x" "isDigit y" and ih: "(xs < ys) = (digitsVal xs < digitsVal ys)"
    "(xs = ys) = (digitsVal xs = digitsVal ys)"
    and bx: "digitsVal xs < 10 ^ length ys" and by': "digitsVal ys < 10 ^ length ys"
    using digitsVal_bound [of xs] digitsVal_bound [of ys] by auto
  have l: "(x # xs < y # ys) = (digitsVal (x # xs) < digitsVal (y # ys))"
    using nat_pair_less [OF bx by', of "digitVal x" "digitVal y"] Cons.hyps ih
      digit_less [OF d] digit_eq [OF d]
    by simp
  have e: "(x # xs = y # ys) = (digitsVal (x # xs) = digitsVal (y # ys))"
    using nat_pair_eq [OF bx by', of "digitVal x" "digitVal y"] Cons.hyps ih digit_eq [OF d]
    by simp
  show ?case using l e by blast
qed

lemma lex_append:
  fixes xs ys :: "'a::linorder list"
  shows "length xs = length ys \<Longrightarrow> (xs @ r < ys @ r') = (xs < ys \<or> xs = ys \<and> r < r')"
  by (induction xs ys rule: list_induct2) auto

lemma canonical_split:
  assumes "isCanonical s"
  shows "s = take 4 s @ ''-'' @ take 2 (drop 5 s) @ ''-'' @ drop 8 s"
proof -
  have "length s = 10" using assms by (simp add: isCanonical_def)
  then obtain a b c d e f g h i j where s: "s = [a, b, c, d, e, f, g, h, i, j]"
    by (auto simp: eval_nat_numeral length_Suc_conv)
  show ?thesis using assms unfolding s by (simp add: isCanonical_def)
qed

lemma canonical_parts:
  assumes "isCanonical s"
  shows "length (take 4 s) = 4 \<and> length (take 2 (drop 5 s)) = 2 \<and> length (drop 8 s) = 2 \<and>
         list_all isDigit (take 4 s) \<and> list_all isDigit (take 2 (drop 5 s)) \<and>
         list_all isDigit (drop 8 s)"
  using assms by (simp add: isCanonical_def)

lemma canonical_less:
  assumes "isCanonical a" and "isCanonical b"
  shows "(a < b) = dateBefore (dateKey a) (dateKey b)"
proof -
  let ?ya = "take 4 a" and ?ma = "take 2 (drop 5 a)" and ?da = "drop 8 a"
  let ?yb = "take 4 b" and ?mb = "take 2 (drop 5 b)" and ?db = "drop 8 b"
  have pa: "length ?ya = 4" "length ?ma = 2" "length ?da = 2"
    "list_all isDigit ?ya" "list_all isDigit ?ma" "list_all isDigit ?da"
    using canonical_parts [OF assms(1)] by simp_all
  have pb: "length ?yb = 4" "length ?mb = 2" "length ?db = 2"
    "list_all isDigit ?yb" "list_all isDigit ?mb" "list_all isDigit ?db"
    using canonical_parts [OF assms(2)] by simp_all
  have y: "(?ya < ?yb) = (digitsVal ?ya < digitsVal ?yb)" "(?ya = ?yb) = (digitsVal ?ya = digitsVal ?yb)"
    using digits_order [of ?ya ?yb] pa pb by simp_all
  have m: "(?ma < ?mb) = (digitsVal ?ma < digitsVal ?mb)" "(?ma = ?mb) = (digitsVal ?ma = digitsVal ?mb)"
    using digits_order [of ?ma ?mb] pa pb by simp_all
  have d: "(?da < ?db) = (digitsVal ?da < digitsVal ?db)"
    using digits_order [of ?da ?db] pa pb by simp
  have "(a < b) = (?ya @ ''-'' @ ?ma @ ''-'' @ ?da < ?yb @ ''-'' @ ?mb @ ''-'' @ ?db)"
    using canonical_split [OF assms(1)] canonical_split [OF assms(2)] by simp
  also have "\<dots> = (?ya < ?yb \<or> ?ya = ?yb \<and> (?ma @ ''-'' @ ?da < ?mb @ ''-'' @ ?db))"
    using lex_append [of ?ya ?yb "''-'' @ ?ma @ ''-'' @ ?da" "''-'' @ ?mb @ ''-'' @ ?db"] pa pb
    by simp
  also have "(?ma @ ''-'' @ ?da < ?mb @ ''-'' @ ?db) = (?ma < ?mb \<or> ?ma = ?mb \<and> ?da < ?db)"
    using lex_append [of ?ma ?mb "''-'' @ ?da" "''-'' @ ?db"] pa pb by simp
  finally show ?thesis by (simp add: dateKey_def y m d)
qed

text \<open>Unfolding the definitions evaluates a cycle on a concrete input.\<close>

lemmas cycle_eval = monitor_def demoConfig_def demoEnv_def demoResponse_def demoListings_def
  checkCondition_def getMovies_def getAllFilmNames_def addMovieNames_def setAdd_def
  keywordsSet_def checkKeywordSets_def pushFilmMatch_def toLowerCase_def toLowerChar_def
  getMatchingKeywordSets_def extractFilmInfo_def extractMovie_def movieNameMatches_def
  recordByMovie_def recordByFilm_def recordCode_def mapHas_def mapGet_def truthy_def jsor_def
  dateFromParts_def fetchStep_def fetchTheaterListings_def datedFor_def
  convertReleaseDateToAPIFormat_def isCanonical_def isDigit_def todayFormatted_def
  formatDate_def showInt_def showNat.simps digitChar_def padStart_def getTheaterNames_def
  pushTheater_def uniqueByName_def checkCinemaKeywords_def cinemaSetStep_def
  notifyAndCall_def computeMatchKey_def makePhoneCall_def hasFilm_def

lemma digitChar_digit: "n < 10 \<Longrightarrow> isDigit (digitChar n)"
proof -
  assume "n < 10"
  then have "n \<in> {0, 1, 2, 3, 4, 5, 6, 7, 8, 9}" by auto
  then show ?thesis by (auto simp: digitChar_def isDigit_def)
qed

lemma showNat_small: "n < 10 \<Longrightarrow> showNat n = [digitChar n]"
  by (simp add: showNat.simps)

lemma showNat_big: "10 \<le> n \<Longrightarrow> showNat n = showNat (n div 10) @ [digitChar (n mod 10)]"
  by (subst showNat.simps) simp

lemma showNat_digits: "list_all isDigit (showNat n)"
proof (induction n rule: showNat.induct)
  case (1 n)
  show ?case
  proof (cases "n < 10")
    case True
    then show ?thesis by (simp add: showNat_small digitChar_digit)
  next
    case False
    then show ?thesis using 1 by (simp add: showNat_big digitChar_digit)
  qed
qed

lemma showNat_len2: "10 \<le> n \<Longrightarrow> n < 100 \<Longrightarrow> length (showNat n) = 2"
  by (simp add: showNat_big showNat_small)

lemma showNat_len3: "100 \<le> n \<Longrightarrow> n < 1000 \<Longrightarrow> length (showNat n) = 3"
  using showNat_len2 [of "n div 10"] by (simp add: showNat_big)

lemma showNat_len4: "1000 \<le> n \<Longrightarrow> n < 10000 \<Longrightarrow> length (showNat n) = 4"
  using showNat_len3 [of "n div 10"] by (simp add: showNat_big)

lemma pad2: "n < 100 \<Longrightarrow>
  length (padStart 2 CHR ''0'' (showNat n)) = 2 \<and> list_all isDigit (padStart 2 CHR ''0'' (showNat n))"
proof (cases "n < 10")
  case True
  then show ?thesis using digitChar_digit [of n]
    by (simp add: padStart_def showNat_small) (simp add: isDigit_def)
next
  case False
  assume "n < 100"
  then have "length (showNat n) = 2" using False showNat_len2 by simp
  then show ?thesis using showNat_digits [of n] by (simp add: padStart_def)
qed

lemma formatDate_canonical:
  assumes "1000 \<le> y" "y \<le> 9999" "m \<le> 11" "d \<le> 31"
  shows "isCanonical (formatDate y m d)"
proof -
  let ?Y = "showNat (nat y)" and ?M = "padStart 2 CHR ''0'' (showNat (m + 1))"
    and ?D = "padStart 2 CHR ''0'' (showNat d)"
  have y: "length ?Y = 4" "list_all isDigit ?Y"
    using assms(1,2) showNat_len4 [of "nat y"] showNat_digits by simp_all
  have m: "length ?M = 2" "list_all isDigit ?M" using pad2 [of "m + 1"] assms(3) by simp_all
  have d: "length ?D = 2" "list_all isDigit ?D" using pad2 [of d] assms(4) by simp_all
  have f: "formatDate y m d = ?Y @ ''-'' @ ?M @ ''-'' @ ?D"
    using assms(1) by (simp add: formatDate_def showInt_def)
  show ?thesis unfolding f using y m d by (simp add: isCanonical_def)
qed

lemma convert_nonempty: "convertReleaseDateToAPIFormat nd rd = Some n \<Longrightarrow> n \<noteq> []"
  by (auto simp: convertReleaseDateToAPIFormat_def formatDate_def manualParse_def
      dest: isCanonical_nonempty split: option.splits if_splits dateResult.splits prod.splits)

text \<open>
  The date a lookup sends. The request carries the film code and the date \<open>datedFor\<close>
  computes. That date is today's when no release date was supplied or normalization
  returned \<open>null\<close>. Otherwise the two formatted strings are compared: today's date is sent
  when the normalized release date is the smaller string, the normalized release date
  when it is not. Between two canonical YYYY-MM-DD strings this is the order of the
  calendar: today's date when the release date is strictly in the past, the release date
  when it is today or in the future. Today's date is canonical when its year has four
  digits.
\<close>

theorem fetchTheaterListings_dated:
  "fst (fetchTheaterListings e c rd) = \<lparr>mid = c, dated = datedFor e rd\<rparr> \<and>
   snd (fetchTheaterListings e c rd) = axiosListings e \<lparr>mid = c, dated = datedFor e rd\<rparr> \<and>
   (\<not> truthy rd \<or> convertReleaseDateToAPIFormat (newDate e) rd = None \<longrightarrow>
      datedFor e rd = todayFormatted e) \<and>
   (\<forall>n. truthy rd \<and> convertReleaseDateToAPIFormat (newDate e) rd = Some n \<longrightarrow>
      datedFor e rd = (if n < todayFormatted e then todayFormatted e else n)) \<and>
   (\<forall>n. truthy rd \<and> convertReleaseDateToAPIFormat (newDate e) rd = Some n \<and>
        isCanonical n \<and> isCanonical (todayFormatted e) \<longrightarrow>
      datedFor e rd =
        (if dateBefore (dateKey n) (dateKey (todayFormatted e)) then todayFormatted e else n)) \<and>
   (\<forall>y m d. today e = (y, m, d) \<and> 1000 \<le> y \<and> y \<le> 9999 \<and> m \<le> 11 \<and> d \<le> 31 \<longrightarrow>
      isCanonical (todayFormatted e))"
proof -
  have t: "isCanonical (todayFormatted e)"
    if "today e = (y, m, d)" "1000 \<le> y" "y \<le> 9999" "m \<le> 11" "d \<le> 31" for y m d
    using that formatDate_canonical [of y m d] by (simp add: todayFormatted_def)
  have a: "fst (fetchTheaterListings e c rd) = \<lparr>mid = c, dated = datedFor e rd\<rparr> \<and>
   snd (fetchTheaterListings e c rd) = axiosListings e \<lparr>mid = c, dated = datedFor e rd\<rparr>"
    by (simp add: fetchTheaterListings_def Let_def)
  have b: "\<not> truthy rd \<or> convertReleaseDateToAPIFormat (newDate e) rd = None \<longrightarrow>
      datedFor e rd = todayFormatted e"
    by (auto simp: datedFor_def)
  have s: "datedFor e rd = (if n < todayFormatted e then todayFormatted e else n)"
    if "truthy rd" "convertReleaseDateToAPIFormat (newDate e) rd = Some n" for n
    using that convert_nonempty [OF that(2)] by (simp add: datedFor_def)
  have k: "datedFor e rd =
        (if dateBefore (dateKey n) (dateKey (todayFormatted e)) then todayFormatted e else n)"
    if "truthy rd" "convertReleaseDateToAPIFormat (newDate e) rd = Some n"
      "isCanonical n" "isCanonical (todayFormatted e)" for n
    using s [OF that(1,2)] canonical_less [OF that(3,4)] by simp
  show ?thesis using a b s k t by blast
qed

theorem fetchTheaterListings_dated_example:
  "truthy (Some ''2025-11-14'') \<and>
   convertReleaseDateToAPIFormat (newDate demoEnv) (Some ''2025-11-14'') = Some ''2025-11-14'' \<and>
   isCanonical ''2025-11-14'' \<and> today demoEnv = (2026, 10, 1) \<and>
   isCanonical (todayFormatted demoEnv) \<and>
   dateBefore (dateKey ''2025-11-14'') (dateKey (todayFormatted demoEnv)) \<and>
   fst (fetchTheaterListings demoEnv ''F1'' (Some ''2025-11-14'')) =
     \<lparr>mid = ''F1'', dated = ''2026-11-01''\<rparr> \<and>
   convertReleaseDateToAPIFormat (newDate demoEnv) (Some ''soon'') = None \<and>
   fst (fetchTheaterListings demoEnv ''F1'' (Some ''soon'')) =
     \<lparr>mid = ''F1'', dated = ''2026-11-01''\<rparr>"
proof -
  have t: "todayFormatted demoEnv = ''2026-11-01''" by (simp add: cycle_eval)
  have tr: "truthy (Some ''2025-11-14'')" by (simp add: truthy_def)
  have cv: "convertReleaseDateToAPIFormat (newDate demoEnv) (Some ''2025-11-14'') =
              Some ''2025-11-14''"
    by (simp add: convertReleaseDateToAPIFormat_def isCanonical_def isDigit_def)
  have c1: "isCanonical ''2025-11-14''" by (simp add: isCanonical_def isDigit_def)
  have td: "today demoEnv = (2026, 10, 1)" by (simp add: demoEnv_def)
  have c2: "isCanonical ''2026-11-01''"
    using fetchTheaterListings_dated [of demoEnv "''F1''" None] td by (simp add: t)
  have b: "dateBefore (dateKey ''2025-11-14'') (dateKey ''2026-11-01'')"
    by (simp add: dateKey_def digitVal_def)
  have cs: "convertReleaseDateToAPIFormat (newDate demoEnv) (Some ''soon'') = None"
    by (simp add: convertReleaseDateToAPIFormat_def isCanonical_def demoEnv_def)
  have d1: "datedFor demoEnv (Some ''2025-11-14'') = ''2026-11-01''"
    using fetchTheaterListings_dated [of demoEnv "''F1''" "Some ''2025-11-14''"] tr cv c1 c2 b
    by (simp add: t)
  have d2: "datedFor demoEnv (Some ''soon'') = ''2026-11-01''"
    using fetchTheaterListings_dated [of demoEnv "''F1''" "Some ''soon''"] cs
    by (simp add: t)
  show ?thesis
    using tr cv c1 c2 b cs d1 d2 td by (simp add: t fetchTheaterListings_def Let_def)
qed

text \<open>
  C4. The date sent is to be the normalized release date when it is today or in the
  future and today's date when it is strictly in the past. The normalizer prints the year
  without padding and the lookup compares strings, so this fails for a year that does not
  have four digits: with today 2026-11-01, a release date in the year 999 is normalized
  to \<open>999-06-15\<close> and sent as it is although it is in the past, and one in the year 12345
  is normalized to \<open>12345-06-15\<close> and today's date is sent although it is in the future.
\<close>

theorem dated_unpadded_year:
  "newDate (demoEnv\<lparr>newDate := expandedYearDate\<rparr>) ''+000999-06-15'' = DateOk 999 5 15 \<and>
   newDate (demoEnv\<lparr>newDate := expandedYearDate\<rparr>) ''+012345-06-15'' = DateOk 12345 5 15 \<and>
   today (demoEnv\<lparr>newDate := expandedYearDate\<rparr>) = (2026, 10, 1) \<and>
   convertReleaseDateToAPIFormat expandedYearDate (Some ''+000999-06-15'') = Some ''999-06-15'' \<and>
   datedFor (demoEnv\<lparr>newDate := expandedYearDate\<rparr>) (Some ''+000999-06-15'') = ''999-06-15'' \<and>
   convertReleaseDateToAPIFormat expandedYearDate (Some ''+012345-06-15'') = Some ''12345-06-15'' \<and>
   datedFor (demoEnv\<lparr>newDate := expandedYearDate\<rparr>) (Some ''+012345-06-15'') = ''2026-11-01''"
  by (simp add: cycle_eval expandedYearDate_def)

section \<open>Properties of the cinema matcher\<close>

lemma everyKeywordIn_sublist:
  "everyKeywordIn ks n \<longleftrightarrow>
   (\<exists>kws. ks = KwArray kws \<and> (\<forall>kw \<in> set kws. sublist (toLowerCase kw) (toLowerCase n)))"
  by (cases ks) (auto simp: everyKeywordIn_def list_all_iff str_includes_iff)

lemma everyKeywordIn_checkKeywordSet:
  "ks \<noteq> KwArray [] \<Longrightarrow> (checkKeywordSet ks [n] \<noteq> []) = everyKeywordIn ks n"
  by (cases ks) (auto simp: everyKeywordIn_def)

lemma cinemaSetStep_array:
  "snd ik = KwArray kws \<Longrightarrow>
   cinemaSetStep th (ms, mts) ik =
     Inr (if everyKeywordIn (snd ik) (name th)
          then (if list_ex (\<lambda>m. setIndex m = fst ik) ms then ms
                else ms @ [\<lparr>keywordSet = snd ik, setIndex = fst ik\<rparr>],
                if list_ex (\<lambda>t. name t = name th) mts then mts else mts @ [th])
          else (ms, mts))"
  by (simp add: cinemaSetStep_def everyKeywordIn_def)

lemma inner_loop:
  "arraysOnly iks \<Longrightarrow>
   \<exists>ms'. forEachE (cinemaSetStep th) (ms, mts) iks =
       Inr (ms',
            if (\<exists>ik \<in> set iks. everyKeywordIn (snd ik) (name th)) \<and>
               name th \<notin> name ` set mts
            then mts @ [th] else mts) \<and>
     (ms' = [] \<longleftrightarrow> ms = [] \<and> \<not> (\<exists>ik \<in> set iks. everyKeywordIn (snd ik) (name th)))"
proof (induction iks arbitrary: ms mts)
  case Nil
  then show ?case by simp
next
  case (Cons ik iks)
  then obtain kws where k: "snd ik = KwArray kws" and rest: "arraysOnly iks"
    by (auto simp: arraysOnly_def)
  show ?case
  proof (cases "everyKeywordIn (snd ik) (name th)")
    case True
    let ?ms = "if list_ex (\<lambda>m. setIndex m = fst ik) ms then ms
               else ms @ [\<lparr>keywordSet = snd ik, setIndex = fst ik\<rparr>]"
    let ?mts = "if list_ex (\<lambda>t. name t = name th) mts then mts else mts @ [th]"
    have step: "cinemaSetStep th (ms, mts) ik = Inr (?ms, ?mts)"
      using cinemaSetStep_array [OF k] True by simp
    have nonempty: "?ms \<noteq> []" by (auto simp: list_ex_iff)
    have ex: "list_ex (\<lambda>t. name t = name th) mts \<longleftrightarrow> name th \<in> name ` set mts"
      unfolding list_ex_iff image_iff by metis
    have names: "name th \<in> name ` set ?mts" by (simp add: ex)
    obtain ms' where
      r: "forEachE (cinemaSetStep th) (?ms, ?mts) iks =
            Inr (ms', if (\<exists>ik \<in> set iks. everyKeywordIn (snd ik) (name th)) \<and>
                         name th \<notin> name ` set ?mts then ?mts @ [th] else ?mts)"
      and e: "ms' = [] \<longleftrightarrow> ?ms = [] \<and> \<not> (\<exists>ik \<in> set iks. everyKeywordIn (snd ik) (name th))"
      using Cons.IH [OF rest, of ?ms ?mts] by blast
    have "forEachE (cinemaSetStep th) (ms, mts) (ik # iks) = Inr (ms', ?mts)"
      using step r names by simp
    moreover have "?mts = (if (\<exists>j \<in> set (ik # iks). everyKeywordIn (snd j) (name th)) \<and>
               name th \<notin> name ` set mts then mts @ [th] else mts)"
      using True by (simp add: ex)
    moreover have "ms' \<noteq> []" using e nonempty by simp
    ultimately show ?thesis using True by auto
  next
    case False
    have step: "cinemaSetStep th (ms, mts) ik = Inr (ms, mts)"
      using cinemaSetStep_array [OF k] False by simp
    show ?thesis using Cons.IH [OF rest, of ms mts] step False by simp
  qed
qed

lemma outer_loop:
  "arraysOnly iks \<Longrightarrow> distinct (map name mts) \<Longrightarrow>
   \<exists>ms' mts'. forEachE (\<lambda>acc th. forEachE (cinemaSetStep th) acc iks) (ms, mts) ts =
       Inr (ms', mts') \<and>
     (ms' = [] \<longleftrightarrow>
        ms = [] \<and> \<not> (\<exists>t \<in> set ts. \<exists>ik \<in> set iks. everyKeywordIn (snd ik) (name t))) \<and>
     name ` set mts' =
       name ` set mts \<union>
       name ` {t \<in> set ts. \<exists>ik \<in> set iks. everyKeywordIn (snd ik) (name t)} \<and>
     set mts' \<subseteq>
       set mts \<union> {t \<in> set ts. \<exists>ik \<in> set iks. everyKeywordIn (snd ik) (name t)} \<and>
     distinct (map name mts')"
proof (induction ts arbitrary: ms mts)
  case Nil
  then show ?case by simp
next
  case (Cons th ts)
  let ?Q = "\<lambda>t. \<exists>ik \<in> set iks. everyKeywordIn (snd ik) (name t)"
  let ?mts = "if ?Q th \<and> name th \<notin> name ` set mts then mts @ [th] else mts"
  obtain ms1 where
    i: "forEachE (cinemaSetStep th) (ms, mts) iks = Inr (ms1, ?mts)"
    and e1: "ms1 = [] \<longleftrightarrow> ms = [] \<and> \<not> ?Q th"
    using inner_loop [OF Cons.prems(1), of th ms mts] by blast
  have dis: "distinct (map name ?mts)" using Cons.prems(2) by simp
  obtain ms' mts' where
    o: "forEachE (\<lambda>acc th. forEachE (cinemaSetStep th) acc iks) (ms1, ?mts) ts = Inr (ms', mts')"
    and e2: "ms' = [] \<longleftrightarrow> ms1 = [] \<and> \<not> (\<exists>t \<in> set ts. ?Q t)"
    and n2: "name ` set mts' = name ` set ?mts \<union> name ` {t \<in> set ts. ?Q t}"
    and s2: "set mts' \<subseteq> set ?mts \<union> {t \<in> set ts. ?Q t}"
    and d2: "distinct (map name mts')"
    using Cons.IH [OF Cons.prems(1) dis, of ms1] by blast
  have r: "forEachE (\<lambda>acc th. forEachE (cinemaSetStep th) acc iks) (ms, mts) (th # ts) =
           Inr (ms', mts')"
    using i o by simp
  have a: "ms' = [] \<longleftrightarrow> ms = [] \<and> \<not> (\<exists>t \<in> set (th # ts). ?Q t)"
    using e1 e2 by auto
  have b: "name ` set mts' = name ` set mts \<union> name ` {t \<in> set (th # ts). ?Q t}"
    using n2 by auto
  have c: "set mts' \<subseteq> set mts \<union> {t \<in> set (th # ts). ?Q t}"
    using s2 by (auto split: if_splits)
  show ?case using r a b c d2 by blast
qed

lemma arraysOnly_enumerate:
  "\<forall>ks \<in> set kss. \<exists>kws. ks = KwArray kws \<Longrightarrow> arraysOnly (enumerate n kss)"
  unfolding arraysOnly_def
proof
  fix ik assume a: "\<forall>ks \<in> set kss. \<exists>kws. ks = KwArray kws"
    and b: "ik \<in> set (enumerate n kss)"
  have "snd ik \<in> set (map snd (enumerate n kss))" using b by (metis imageI set_map)
  then have "snd ik \<in> set kss" by simp
  then show "\<exists>kws. snd ik = KwArray kws" using a by blast
qed

lemma ex_enumerate:
  "(\<exists>ik \<in> set (enumerate n kss). P (snd ik)) \<longleftrightarrow> (\<exists>ks \<in> set kss. P ks)"
proof -
  have "set kss = snd ` set (enumerate n kss)"
    by (metis map_snd_enumerate set_map)
  then show ?thesis by auto
qed

text \<open>
  On a configuration that is a non-empty list of arrays the cinema matcher does not
  throw. The names of \<open>matchingTheaters\<close> are the names of the theatres for which some
  configured set has every keyword in the name, each name once; every theatre of
  \<open>matchingTheaters\<close> is such a theatre, and all of them are there when the names of the
  input are distinct; \<open>matched\<close> is true exactly when some theatre satisfies some set. On
  every keyword set but the empty array the test agrees with \<open>checkKeywordSet\<close> applied to
  the name.
\<close>

theorem checkCinemaKeywords_on_arrays:
  assumes "cinemaKeywords cfg = Some kss" and "kss \<noteq> []"
    and "\<forall>ks \<in> set kss. \<exists>kws. ks = KwArray kws"
  shows "\<exists>r. checkCinemaKeywords cfg ts = Inr r \<and>
      name ` set (matchingTheaters r) =
        name ` {t \<in> set ts. \<exists>ks \<in> set kss. everyKeywordIn ks (name t)} \<and>
      set (matchingTheaters r) \<subseteq>
        {t \<in> set ts. \<exists>ks \<in> set kss. everyKeywordIn ks (name t)} \<and>
      distinct (map name (matchingTheaters r)) \<and>
      (distinct (map name ts) \<longrightarrow>
         set (matchingTheaters r) =
           {t \<in> set ts. \<exists>ks \<in> set kss. everyKeywordIn ks (name t)}) \<and>
      (matched r \<longleftrightarrow> (\<exists>t \<in> set ts. \<exists>ks \<in> set kss. everyKeywordIn ks (name t))) \<and>
      (\<forall>ks n. everyKeywordIn ks n \<longleftrightarrow>
         (\<exists>kws. ks = KwArray kws \<and>
                (\<forall>kw \<in> set kws. sublist (toLowerCase kw) (toLowerCase n)))) \<and>
      (\<forall>ks n. ks \<noteq> KwArray [] \<longrightarrow>
         (checkKeywordSet ks [n] \<noteq> []) = everyKeywordIn ks n)"
proof -
  let ?iks = "enumerate 0 kss"
  let ?Q = "\<lambda>t. \<exists>ks \<in> set kss. everyKeywordIn ks (name t)"
  have ar: "arraysOnly ?iks" using assms(3) by (rule arraysOnly_enumerate)
  have q: "(\<exists>ik \<in> set ?iks. everyKeywordIn (snd ik) (name t)) \<longleftrightarrow> ?Q t" for t
    using ex_enumerate [of 0 kss "\<lambda>ks. everyKeywordIn ks (name t)"] by simp
  have d0: "distinct (map name ([] :: theater list))" by simp
  obtain ms' mts' where
    o: "forEachE (\<lambda>acc th. forEachE (cinemaSetStep th) acc ?iks) ([], []) ts = Inr (ms', mts')"
    and e: "ms' = [] \<longleftrightarrow> \<not> (\<exists>t \<in> set ts. ?Q t)"
    and n: "name ` set mts' = name ` {t \<in> set ts. ?Q t}"
    and s: "set mts' \<subseteq> {t \<in> set ts. ?Q t}"
    and dm: "distinct (map name mts')"
    using outer_loop [OF ar d0, of "[]" ts] by (auto simp: q)
  let ?r = "\<lparr>matched = length ms' > 0, matchingTheaters = mts', matchedSets = ms'\<rparr>"
  have r: "checkCinemaKeywords cfg ts = Inr ?r"
    using assms(1,2) o by (simp add: checkCinemaKeywords_def keywordsSet_def)
  have d: "set mts' = {t \<in> set ts. ?Q t}" if dis: "distinct (map name ts)"
  proof
    show "set mts' \<subseteq> {t \<in> set ts. ?Q t}" by (rule s)
    show "{t \<in> set ts. ?Q t} \<subseteq> set mts'"
    proof
      fix t assume t: "t \<in> {t \<in> set ts. ?Q t}"
      then have "name t \<in> name ` set mts'" using n by blast
      then obtain t' where t': "t' \<in> set mts'" "name t' = name t" by (metis imageE)
      then have "t' \<in> set ts" using s by blast
      moreover have "inj_on name (set ts)" using dis by (simp add: distinct_map)
      ultimately have "t' = t" using t t'(2) by (auto dest: inj_onD)
      then show "t \<in> set mts'" using t'(1) by simp
    qed
  qed
  have c1: "\<forall>ks n. everyKeywordIn ks n \<longleftrightarrow>
         (\<exists>kws. ks = KwArray kws \<and>
                (\<forall>kw \<in> set kws. sublist (toLowerCase kw) (toLowerCase n)))"
    using everyKeywordIn_sublist by blast
  have c2: "\<forall>ks n. ks \<noteq> KwArray [] \<longrightarrow> (checkKeywordSet ks [n] \<noteq> []) = everyKeywordIn ks n"
    using everyKeywordIn_checkKeywordSet by blast
  have m: "matched ?r \<longleftrightarrow> (\<exists>t \<in> set ts. ?Q t)" using e by simp
  have "checkCinemaKeywords cfg ts = Inr ?r \<and>
      name ` set (matchingTheaters ?r) = name ` {t \<in> set ts. ?Q t} \<and>
      set (matchingTheaters ?r) \<subseteq> {t \<in> set ts. ?Q t} \<and>
      distinct (map name (matchingTheaters ?r)) \<and>
      (distinct (map name ts) \<longrightarrow> set (matchingTheaters ?r) = {t \<in> set ts. ?Q t}) \<and>
      (matched ?r \<longleftrightarrow> (\<exists>t \<in> set ts. ?Q t))"
    using r n s d dm m by simp
  then show ?thesis using c1 c2 by blast
qed

theorem checkCinemaKeywords_on_arrays_example:
  "cinemaKeywords (demoConfig\<lparr>cinemaKeywords := Some [KwArray [''IMAX'']]\<rparr>) =
     Some [KwArray [''IMAX'']] \<and>
   checkCinemaKeywords (demoConfig\<lparr>cinemaKeywords := Some [KwArray [''IMAX'']]\<rparr>) demoTheaters =
     Inr \<lparr>matched = True,
          matchingTheaters =
            [\<lparr>name = ''City Mall - IMAX'', theatreId = None, showCount = 3, cityName = None,
              address1 = None\<rparr>],
          matchedSets = [\<lparr>keywordSet = KwArray [''IMAX''], setIndex = 0\<rparr>]\<rparr> \<and>
   checkKeywordSet (KwArray [''IMAX'']) [''City Mall - Digital'', ''City Mall - IMAX''] =
     [''City Mall - IMAX'']"
  using checkCinemaKeywords_on_arrays
    [of "demoConfig\<lparr>cinemaKeywords := Some [KwArray [''IMAX'']]\<rparr>" "[KwArray [''IMAX'']]"
        demoTheaters]
  by (simp add: checkCinemaKeywords_def keywordsSet_def cinemaSetStep_def demoTheaters_def
      toLowerCase_def toLowerChar_def)

text \<open>
  C3. The cinema matcher is to match a theatre name as \<open>checkKeywordSet\<close> does, and
  \<open>checkKeywordSet\<close> returns no name for an empty keyword set and for a keyword set that
  is not an array. \<open>checkCinemaKeywords\<close> has no such guard: with the configuration
  \<open>[[]]\<close> every theatre matches and \<open>matched\<close> is true, and with an entry that is not an
  array the call throws a \<open>TypeError\<close>.
\<close>

theorem checkCinemaKeywords_misses_guard:
  "checkCinemaKeywords (demoConfig\<lparr>cinemaKeywords := Some [KwArray []]\<rparr>) demoTheaters =
     Inr \<lparr>matched = True, matchingTheaters = demoTheaters,
          matchedSets = [\<lparr>keywordSet = KwArray [], setIndex = 0\<rparr>]\<rparr> \<and>
   checkKeywordSet (KwArray []) (map name demoTheaters) = [] \<and>
   checkCinemaKeywords (demoConfig\<lparr>cinemaKeywords := Some [KwOther]\<rparr>) demoTheaters =
     Inl TypeError \<and>
   checkKeywordSet KwOther (map name demoTheaters) = []"
  by (simp add: checkCinemaKeywords_def keywordsSet_def cinemaSetStep_def demoTheaters_def)

section \<open>Properties of the escalation\<close>




lemma makePhoneCall_ready:
  "twilioReady cfg \<Longrightarrow> k \<noteq> [] \<Longrightarrow>
   makePhoneCall cfg outcome (Some k) S =
     (if k \<in> S then (False, S, [])
      else case outcome of Inr sid \<Rightarrow> (True, insert k S, [TwilioCall])
                         | Inl err \<Rightarrow> (False, S, [TwilioCall]))"
  by (auto simp: makePhoneCall_def twilioReady_def truthy_def split: sum.splits)










text \<open>
  C10. When creating the call throws, \<open>makePhoneCall\<close> returns false and the set is
  unchanged; for a new non-empty key, with Twilio ready, the failed call was attempted and
  a later call with the same key on the set left behind is attempted again and, when it
  succeeds, returns true and records the key. A key enters the set only in a call whose
  creation succeeded and which returns true.
\<close>

theorem failed_call_not_recorded:
  "fst (makePhoneCall cfg (Inl err) mKey S) = False \<and>
   fst (snd (makePhoneCall cfg (Inl err) mKey S)) = S \<and>
   (twilioReady cfg \<and> mKey = Some k \<and> k \<noteq> [] \<and> k \<notin> S \<longrightarrow>
      makePhoneCall cfg (Inl err) mKey S = (False, S, [TwilioCall]) \<and>
      makePhoneCall cfg (Inr sid) mKey (fst (snd (makePhoneCall cfg (Inl err) mKey S))) =
        (True, insert k S, [TwilioCall])) \<and>
   (k \<in> fst (snd (makePhoneCall cfg outcome mKey S)) \<and> k \<notin> S \<longrightarrow>
      (\<exists>sid'. outcome = Inr sid') \<and> mKey = Some k \<and> fst (makePhoneCall cfg outcome mKey S))"
proof -
  have a: "fst (makePhoneCall cfg (Inl err) mKey S) = False \<and>
           fst (snd (makePhoneCall cfg (Inl err) mKey S)) = S"
    by (simp add: makePhoneCall_def)
  have b: "twilioReady cfg \<and> mKey = Some k \<and> k \<noteq> [] \<and> k \<notin> S \<longrightarrow>
      makePhoneCall cfg (Inl err) mKey S = (False, S, [TwilioCall]) \<and>
      makePhoneCall cfg (Inr sid) mKey (fst (snd (makePhoneCall cfg (Inl err) mKey S))) =
        (True, insert k S, [TwilioCall])"
    by (simp add: makePhoneCall_ready)
  have c: "k \<in> fst (snd (makePhoneCall cfg outcome mKey S)) \<and> k \<notin> S \<longrightarrow>
      (\<exists>sid'. outcome = Inr sid') \<and> mKey = Some k \<and> fst (makePhoneCall cfg outcome mKey S)"
    by (auto simp: makePhoneCall_def split: if_splits sum.splits option.splits)
  show ?thesis using a b c by blast
qed

theorem failed_call_not_recorded_witness:
  "twilioReady demoConfig \<and> ''F1|all'' \<noteq> [] \<and> ''F1|all'' \<notin> ({} :: string set) \<and>
   makePhoneCall demoConfig (Inl ''busy'') (Some ''F1|all'') {} = (False, {}, [TwilioCall]) \<and>
   makePhoneCall demoConfig (Inr ''CA1'') (Some ''F1|all'') {} =
     (True, {''F1|all''}, [TwilioCall]) \<and>
   ''F1|all'' \<in> fst (snd (makePhoneCall demoConfig (Inr ''CA1'') (Some ''F1|all'') {}))"
  using failed_call_not_recorded [of demoConfig "''busy''" "Some ''F1|all''" "{}" "''F1|all''"
      "''CA1''" "Inr ''CA1''"]
  by (simp add: makePhoneCall_def demoConfig_def truthy_def twilioReady_def)

section \<open>Properties of the monitor cycle\<close>

text \<open>
  C9. When the primary request fails, the cycle sends the error notification and nothing
  else: its only event is that one Telegram message (no configured condition is run, no
  theatre listing is requested, no call is attempted), \<open>phoneCallMade\<close> is unchanged, no
  key is built, and the result does not depend on the configuration.
\<close>

theorem monitor_ping_failure:
  "pingAPI e = ApiFailure err status \<Longrightarrow>
   monitor cfg e S =
     \<lparr>events = [Telegram (ApiErrorMessage status err)], seenKeys = S, matchKey = None,
      thrown = None\<rparr> \<and>
   length (filter (\<lambda>ev. \<exists>n. ev = Telegram n) (events (monitor cfg e S))) = 1 \<and>
   TwilioCall \<notin> set (events (monitor cfg e S)) \<and>
   ConditionEvaluated \<notin> set (events (monitor cfg e S)) \<and>
   (\<forall>req. TheaterListingsRequest req \<notin> set (events (monitor cfg e S)))"
  by (simp add: monitor_def)

theorem monitor_ping_failure_witness:
  "pingAPI (demoEnv\<lparr>pingAPI := ApiFailure ''timeout'' None\<rparr>) = ApiFailure ''timeout'' None \<and>
   monitor demoConfig (demoEnv\<lparr>pingAPI := ApiFailure ''timeout'' None\<rparr>) {''old''} =
     \<lparr>events = [Telegram (ApiErrorMessage None ''timeout'')], seenKeys = {''old''},
      matchKey = None, thrown = None\<rparr>"
  using monitor_ping_failure [of "demoEnv\<lparr>pingAPI := ApiFailure ''timeout'' None\<rparr>"
      "''timeout''" None demoConfig "{''old''}"]
  by simp

lemma forEachE_invariant:
  assumes "\<And>s x s'. I s \<Longrightarrow> f s x = Inr s' \<Longrightarrow> I s'"
  shows "I s \<Longrightarrow> forEachE f s xs = Inr s' \<Longrightarrow> I s'"
proof (induction xs arbitrary: s)
  case Nil
  then show ?case by simp
next
  case (Cons x xs)
  then obtain s1 where s1: "f s x = Inr s1" "forEachE f s1 xs = Inr s'"
    by (auto split: sum.splits)
  then show ?case using Cons.IH [of s1] assms [OF Cons.prems(1) s1(1)] by simp
qed

lemma cinemaSetStep_keeps:
  "(fst acc \<noteq> [] \<longrightarrow> snd acc \<noteq> []) \<Longrightarrow> cinemaSetStep th acc ik = Inr acc' \<Longrightarrow>
   (fst acc' \<noteq> [] \<longrightarrow> snd acc' \<noteq> [])"
  by (auto simp: cinemaSetStep_def list_ex_iff split: kwset.splits if_splits)

lemma matched_has_theater:
  assumes "checkCinemaKeywords cfg ts = Inr r" and "keywordsSet (cinemaKeywords cfg)"
    and "matched r"
  shows "matchingTheaters r \<noteq> []"
proof -
  let ?iks = "enumerate 0 (case cinemaKeywords cfg of Some kss \<Rightarrow> kss | None \<Rightarrow> [])"
  let ?I = "\<lambda>acc :: setMatch list \<times> theater list. fst acc \<noteq> [] \<longrightarrow> snd acc \<noteq> []"
  obtain acc where acc: "forEachE (\<lambda>acc th. forEachE (cinemaSetStep th) acc ?iks) ([], []) ts = Inr acc"
    and r: "r = \<lparr>matched = length (fst acc) > 0, matchingTheaters = snd acc, matchedSets = fst acc\<rparr>"
    using assms(1,2) by (auto simp: checkCinemaKeywords_def split: sum.splits)
  have inner: "?I s \<Longrightarrow> forEachE (cinemaSetStep th) s ?iks = Inr s' \<Longrightarrow> ?I s'" for s th s'
    by (rule forEachE_invariant [where I = ?I and f = "cinemaSetStep th"])
       (auto dest: cinemaSetStep_keeps [rotated])
  have "?I acc"
    by (rule forEachE_invariant [where I = ?I, OF _ _ acc]) (auto dest: inner [rotated])
  then show ?thesis using r assms(3) by simp
qed

text \<open>
  C2, as the code has it. In a cycle whose condition is met, with \<open>km\<close> the matching
  keyword sets, \<open>infos\<close> the film identifiers resolved and \<open>uniq\<close> the theatres found for
  them: when a keyword set matched and an identifier was resolved, the key is the sorted,
  comma-joined identifiers, then \<open>|\<close>, then the sorted, comma-joined names of the matching
  theatres. With no cinema keywords the matching theatres are all of \<open>uniq\<close>, and the
  token \<open>all\<close> stands for the theatre part only when \<open>uniq\<close> is empty; with cinema
  keywords, in a cycle that notifies, the matching theatres are not empty. When no keyword
  set matched and the target name is found, the key is \<open>legacy|\<close> and the target name.
\<close>

theorem monitor_matchKey:
  assumes "pingAPI e = ApiSuccess st rdata" and "fst (checkCondition cfg rdata)"
    and "km = getMatchingKeywordSets cfg rdata"
    and "infos = extractFilmInfo (getMovies rdata) (concat (map matchingFilms km))"
    and "uniq = uniqueByName (snd (foldl (fetchStep e) (snd (checkCondition cfg rdata), []) infos))"
  shows
    "(km \<noteq> [] \<and> infos \<noteq> [] \<and> \<not> keywordsSet (cinemaKeywords cfg) \<longrightarrow>
        matchKey (monitor cfg e S) =
          Some (join '','' (sort (map code infos)) @ ''|'' @
                (if uniq = [] then ''all'' else join '','' (sort (map name uniq))))) \<and>
     (\<forall>r. km \<noteq> [] \<and> infos \<noteq> [] \<and> keywordsSet (cinemaKeywords cfg) \<and>
          checkCinemaKeywords cfg uniq = Inr r \<and> matched r \<longrightarrow>
        matchingTheaters r \<noteq> [] \<and>
        matchKey (monitor cfg e S) =
          Some (join '','' (sort (map code infos)) @ ''|'' @
                join '','' (sort (map name (matchingTheaters r))))) \<and>
     (\<forall>t. km = [] \<and> targetMovie cfg = Some t \<and> t \<noteq> [] \<and>
          hasFilm (getAllFilmNames (getMovies rdata)) t \<longrightarrow>
        matchKey (monitor cfg e S) = Some (''legacy|'' @ t))"
proof -
  obtain c ev where ce: "checkCondition cfg rdata = (c, ev)" by (cases "checkCondition cfg rdata")
  have c: "c" using assms(2) ce by simp
  have a: "matchKey (monitor cfg e S) =
          Some (join '','' (sort (map code infos)) @ ''|'' @
                (if uniq = [] then ''all'' else join '','' (sort (map name uniq))))"
    if "km \<noteq> []" "infos \<noteq> []" "\<not> keywordsSet (cinemaKeywords cfg)"
    using that assms(1,3,4,5) ce c
    by (simp add: monitor_def Let_def checkCinemaKeywords_def notifyAndCall_def
        computeMatchKey_def split: prod.splits)
  have b: "matchingTheaters r \<noteq> [] \<and> matchKey (monitor cfg e S) =
          Some (join '','' (sort (map code infos)) @ ''|'' @
                join '','' (sort (map name (matchingTheaters r))))"
    if "km \<noteq> []" "infos \<noteq> []" "keywordsSet (cinemaKeywords cfg)"
      "checkCinemaKeywords cfg uniq = Inr r" "matched r" for r
  proof -
    have ne: "matchingTheaters r \<noteq> []" using matched_has_theater that(4,3,5) by blast
    have "checkCinemaKeywords cfg
            (uniqueByName (snd (foldl (fetchStep e) (ev, [])
               (extractFilmInfo (getMovies rdata)
                  (concat (map matchingFilms (getMatchingKeywordSets cfg rdata))))))) = Inr r"
      using that(4) assms(3,4,5) ce by simp
    then show ?thesis
      using that(1,2,3,5) ne assms(1,3,4) ce c
      by (simp add: monitor_def Let_def notifyAndCall_def computeMatchKey_def
          split: prod.splits)
  qed
  have l: "matchKey (monitor cfg e S) = Some (''legacy|'' @ t)"
    if "km = []" "targetMovie cfg = Some t" "t \<noteq> []" "hasFilm (getAllFilmNames (getMovies rdata)) t"
    for t
    using that assms(1,3) ce c
    by (simp add: monitor_def Let_def notifyAndCall_def computeMatchKey_def split: prod.splits)
  show ?thesis using a b l by blast
qed

theorem monitor_matchKey_witness:
  "pingAPI demoEnv = ApiSuccess 200 demoResponse \<and>
   fst (checkCondition demoConfig demoResponse) \<and>
   getMatchingKeywordSets demoConfig demoResponse \<noteq> [] \<and>
   map code (extractFilmInfo (getMovies demoResponse)
     (concat (map matchingFilms (getMatchingKeywordSets demoConfig demoResponse)))) = [''F1''] \<and>
   matchKey (monitor demoConfig demoEnv {}) = Some ''F1|City Mall - IMAX'' \<and>
   keywordsSet (cinemaKeywords (demoConfig\<lparr>cinemaKeywords := Some [KwArray [''IMAX'']]\<rparr>)) \<and>
   matchKey (monitor (demoConfig\<lparr>cinemaKeywords := Some [KwArray [''IMAX'']]\<rparr>) demoEnv {}) =
     Some ''F1|City Mall - IMAX'' \<and>
   targetMovie (demoConfig\<lparr>movieKeywords := None, targetMovie := Some ''spider''\<rparr>) =
     Some ''spider'' \<and>
   matchKey (monitor (demoConfig\<lparr>movieKeywords := None, targetMovie := Some ''spider''\<rparr>)
     demoEnv {}) = Some ''legacy|spider''"
proof -
  let ?leg = "demoConfig\<lparr>movieKeywords := None, targetMovie := Some ''spider''\<rparr>"
  have p: "pingAPI demoEnv = ApiSuccess 200 demoResponse" by (simp add: demoEnv_def)
  have c: "fst (checkCondition demoConfig demoResponse)" by (simp add: cycle_eval)
  have km: "[\<lparr>keywordSet = KwArray [''Spider'', ''No Way Home''], setIndex = 0,
        matchingFilms = [''Spider-Man: No Way Home'']\<rparr>] =
      getMatchingKeywordSets demoConfig demoResponse"
    by (simp add: cycle_eval)
  have infos: "[\<lparr>code = ''F1'', releaseDate = Some ''2025-11-14''\<rparr>] =
      extractFilmInfo (getMovies demoResponse)
        (concat (map matchingFilms
           [\<lparr>keywordSet = KwArray [''Spider'', ''No Way Home''], setIndex = 0,
             matchingFilms = [''Spider-Man: No Way Home'']\<rparr>]))"
    by (simp add: cycle_eval)
  have uniq: "[\<lparr>name = ''City Mall - IMAX'', theatreId = None, showCount = 3, cityName = None,
        address1 = None\<rparr>] =
      uniqueByName (snd (foldl (fetchStep demoEnv)
        (snd (checkCondition demoConfig demoResponse), [])
        [\<lparr>code = ''F1'', releaseDate = Some ''2025-11-14''\<rparr>]))"
    by (simp add: cycle_eval)
  have nk: "\<not> keywordsSet (cinemaKeywords demoConfig)" by (simp add: cycle_eval)
  have k1: "matchKey (monitor demoConfig demoEnv {}) = Some ''F1|City Mall - IMAX''"
    using monitor_matchKey [OF p c km infos uniq, of "{}"] nk
    by simp
  let ?cin = "demoConfig\<lparr>cinemaKeywords := Some [KwArray [''IMAX'']]\<rparr>"
  have c2: "fst (checkCondition ?cin demoResponse)" by (simp add: cycle_eval)
  have km2: "[\<lparr>keywordSet = KwArray [''Spider'', ''No Way Home''], setIndex = 0,
        matchingFilms = [''Spider-Man: No Way Home'']\<rparr>] =
      getMatchingKeywordSets ?cin demoResponse"
    by (simp add: cycle_eval)
  have uniq2: "[\<lparr>name = ''City Mall - IMAX'', theatreId = None, showCount = 3, cityName = None,
        address1 = None\<rparr>] =
      uniqueByName (snd (foldl (fetchStep demoEnv)
        (snd (checkCondition ?cin demoResponse), [])
        [\<lparr>code = ''F1'', releaseDate = Some ''2025-11-14''\<rparr>]))"
    by (simp add: cycle_eval)
  have ks2: "keywordsSet (cinemaKeywords ?cin)" by (simp add: keywordsSet_def)
  have r2: "checkCinemaKeywords ?cin
      [\<lparr>name = ''City Mall - IMAX'', theatreId = None, showCount = 3, cityName = None,
        address1 = None\<rparr>] =
      Inr \<lparr>matched = True,
           matchingTheaters =
             [\<lparr>name = ''City Mall - IMAX'', theatreId = None, showCount = 3, cityName = None,
               address1 = None\<rparr>],
           matchedSets = [\<lparr>keywordSet = KwArray [''IMAX''], setIndex = 0\<rparr>]\<rparr>"
    by (simp add: cycle_eval)
  have k2: "matchKey (monitor ?cin demoEnv {}) = Some ''F1|City Mall - IMAX''"
    using monitor_matchKey [OF p c2 km2 infos uniq2, of "{}"] ks2 r2
    by simp
  have c3: "fst (checkCondition ?leg demoResponse)" by (simp add: cycle_eval)
  have km3: "[] = getMatchingKeywordSets ?leg demoResponse" by (simp add: cycle_eval)
  have t3: "targetMovie ?leg = Some ''spider''" by simp
  have h3: "hasFilm (getAllFilmNames (getMovies demoResponse)) ''spider''"
    by (simp add: cycle_eval)
  have k3: "matchKey (monitor ?leg demoEnv {}) = Some ''legacy|spider''"
    using monitor_matchKey [OF p c3 km3 refl refl, of "{}"] t3 h3
    by simp
  have infos2: "extractFilmInfo (getMovies demoResponse) [''Spider-Man: No Way Home''] =
      [\<lparr>code = ''F1'', releaseDate = Some ''2025-11-14''\<rparr>]"
    using infos by simp
  show ?thesis using p c k1 k2 ks2 k3 by (simp add: km [symmetric] infos2)
qed

text \<open>
  With no cinema keywords and a theatre found, the theatre part of the key is the
  theatre's name, not the token \<open>all\<close>.
\<close>

theorem matchKey_all_token_counterexample:
  "cinemaKeywords demoConfig = None \<and>
   matchKey (monitor demoConfig demoEnv {}) = Some ''F1|City Mall - IMAX'' \<and>
   matchKey (monitor demoConfig demoEnv {}) \<noteq> Some ''F1|all''"
  by (simp add: cycle_eval)

end
